theory Spec2Isabelle
  imports Main "HOL-Library.Word"
begin

unbundle bit_operations_syntax

section \<open>The x86 register context (runtime/arch/x86/context_x86.cc)\<close>

text \<open>
  The file implements \<^verbatim>\<open>X86Context\<close> for the 32-bit x86 target (the long jump is compiled
  only under \<^verbatim>\<open>__i386__\<close>), so \<^verbatim>\<open>uintptr_t\<close>, \<^verbatim>\<open>size_t\<close> and \<^verbatim>\<open>uint32_t\<close> are all
  32-bit words and one pointer is one word.
\<close>

type_synonym uintptr_t = "32 word"
type_synonym uint32_t = "32 word"

subsection \<open>Pointers and the memory they reference\<close>

text \<open>
  A slot of the context is a C++ pointer. The source builds pointers in four ways only:
  \<^verbatim>\<open>nullptr\<close>, \<^verbatim>\<open>&gZero\<close> (the file-level \<^verbatim>\<open>static constexpr uintptr_t gZero = 0\<close>),
  \<^verbatim>\<open>&esp_\<close> (a field of the context itself) and the addresses that
  \<^verbatim>\<open>StackVisitor::CalleeSaveAddress\<close> returns or that \<^verbatim>\<open>DoLongJump\<close> computes. They are
  kept apart as the constructors of one datatype: \<open>gZero\<close>, \<open>esp_\<close> and the words of the
  stack are distinct objects, so their addresses differ, and none is null.
\<close>

datatype ptr = nullptr | addr_gZero | addr_esp | Addr uintptr_t

text \<open>
  The state the functions of the file act on: the four fields of \<^verbatim>\<open>X86Context\<close>
  (\<^verbatim>\<open>gprs_\<close>, \<^verbatim>\<open>fprs_\<close>, \<^verbatim>\<open>esp_\<close>, \<^verbatim>\<open>eip_\<close>; an Isabelle name cannot end in an underscore,
  hence the prefix), the memory the slots point into, one word per address, and the set
  of addresses at which the process has memory at all. A slot holds the address of a
  word that exists (\<open>gZero\<close>, \<open>esp_\<close>, a spill slot of a live frame); only the long jump
  turns a number it has computed into a pointer, and there \<open>mapped\<close> decides whether
  the store faults.
\<close>

record state =
  ctx_gprs :: "ptr list"
  ctx_fprs :: "ptr list"
  ctx_esp :: uintptr_t
  ctx_eip :: uintptr_t
  memory :: "uintptr_t \<Rightarrow> uintptr_t"
  mapped :: "uintptr_t \<Rightarrow> bool"

subsection \<open>Declarations the file takes from its headers\<close>

text \<open>
  \<^verbatim>\<open>context_x86.h\<close>, \<^verbatim>\<open>registers_x86.h\<close> and \<^verbatim>\<open>context.h\<close> are not among the sources. What
  the file uses of them is a parameter of every function below: the sizes of the two slot
  arrays, the values of the \<^verbatim>\<open>Register\<close> enumerators, the two debug bases, the
  accessibility predicates behind the \<^verbatim>\<open>DCHECK\<close>s, whether \<^verbatim>\<open>DCHECK\<close> is compiled in, and
  whether \<^verbatim>\<open>__i386__\<close> is defined. The last two fields are the numbers that the addresses
  \<^verbatim>\<open>&gZero\<close> and \<^verbatim>\<open>&esp_\<close> are in the running process.
\<close>

record decls =
  kNumberOfCpuRegisters :: nat
  kNumberOfFloatRegisters :: nat
  EAX :: nat
  ECX :: nat
  EDX :: nat
  EBX :: nat
  ESP :: nat
  EBP :: nat
  ESI :: nat
  EDI :: nat
  kBadGprBase :: uintptr_t
  kBadFprBase :: uintptr_t
  IsAccessibleGPR :: "state \<Rightarrow> uint32_t \<Rightarrow> bool"
  IsAccessibleFPR :: "state \<Rightarrow> uint32_t \<Rightarrow> bool"
  kIsDebugBuild :: bool
  i386 :: bool
  gZero_address :: uintptr_t
  esp_address :: uintptr_t

text \<open>
  What an enumeration and two array sizes guarantee: the enumerators are pairwise
  different and index the general-purpose array, and a register index is a valid shift
  count for a 32-bit spill mask.
\<close>

definition decls_ok :: "decls \<Rightarrow> bool" where
  "decls_ok A \<longleftrightarrow>
     distinct [EAX A, ECX A, EDX A, EBX A, ESP A, EBP A, ESI A, EDI A] \<and>
     list_all (\<lambda>r. r < kNumberOfCpuRegisters A)
       [EAX A, ECX A, EDX A, EBX A, ESP A, EBP A, ESI A, EDI A] \<and>
     kNumberOfCpuRegisters A \<le> 32 \<and> kNumberOfFloatRegisters A \<le> 32"

text \<open>
  The two members \<^verbatim>\<open>gprs_[kNumberOfCpuRegisters]\<close> and \<^verbatim>\<open>fprs_[kNumberOfFloatRegisters]\<close>
  are arrays of fixed size.
\<close>

definition state_ok :: "decls \<Rightarrow> state \<Rightarrow> bool" where
  "state_ok A s \<longleftrightarrow>
     length (ctx_gprs s) = kNumberOfCpuRegisters A \<and>
     length (ctx_fprs s) = kNumberOfFloatRegisters A"

text \<open>
  The frame cursor, as far as \<^verbatim>\<open>FillCalleeSaves\<close> consults it: the three numbers of
  \<^verbatim>\<open>fr.GetMethod()->GetQuickFrameInfo()\<close> and \<^verbatim>\<open>fr.CalleeSaveAddress(int num, size_t
  frame_size)\<close>, which \<^verbatim>\<open>stack.h\<close> (not among the sources) defines.
\<close>

record StackVisitor =
  CoreSpillMask :: uint32_t
  FpSpillMask :: uint32_t
  FrameSizeInBytes :: uint32_t
  CalleeSaveAddress :: "int \<Rightarrow> uint32_t \<Rightarrow> ptr"

subsection \<open>Fatal outcomes\<close>

text \<open>
  None of the functions returns an error code. A failed \<^verbatim>\<open>CHECK\<close> aborts the process and
  a store through a null or read-only pointer, or to an address without memory, faults.
  Each is a branch of the model: the result \<open>Inl (a, s)\<close> says that the call stopped with
  \<open>a\<close> when the state was \<open>s\<close>; \<open>Inr\<close> is a normal return.
\<close>

datatype abort =
  CHECK_LT_failed | DCHECK_failed | CHECK_NE_failed | SIGSEGV | UNIMPLEMENTED

type_synonym 'a outcome = "abort \<times> state + 'a"

type_synonym op = "state \<Rightarrow> state outcome"

definition seq :: "op \<Rightarrow> op \<Rightarrow> op" where
  "seq f g s = (case f s of Inl a \<Rightarrow> Inl a | Inr s' \<Rightarrow> g s')"

definition CHECK :: "abort \<Rightarrow> (state \<Rightarrow> bool) \<Rightarrow> op" where
  "CHECK a b s = (if b s then Inr s else Inl (a, s))"

definition DCHECK :: "decls \<Rightarrow> (state \<Rightarrow> bool) \<Rightarrow> op" where
  "DCHECK A b s = (if kIsDebugBuild A then CHECK DCHECK_failed b s else Inr s)"

text \<open>The state a call, or a loop of it, ends in, whether it returned or stopped.\<close>

definition state_of :: "abort \<times> 'a + 'a \<Rightarrow> 'a" where
  "state_of r = (case r of Inl (a, s) \<Rightarrow> s | Inr s \<Rightarrow> s)"

text \<open>Reading and writing one word through a pointer.\<close>

definition load :: "state \<Rightarrow> ptr \<Rightarrow> abort + uintptr_t" where
  "load s p =
     (case p of
        nullptr \<Rightarrow> Inl SIGSEGV
      | addr_gZero \<Rightarrow> Inr 0
      | addr_esp \<Rightarrow> Inr (ctx_esp s)
      | Addr a \<Rightarrow> Inr (memory s a))"

definition store :: "ptr \<Rightarrow> uintptr_t \<Rightarrow> op" where
  "store p v s =
     (case p of
        nullptr \<Rightarrow> Inl (SIGSEGV, s)
      | addr_gZero \<Rightarrow> Inl (SIGSEGV, s)
      | addr_esp \<Rightarrow> Inr (s\<lparr>ctx_esp := v\<rparr>)
      | Addr a \<Rightarrow> Inr (s\<lparr>memory := (memory s)(a := v)\<rparr>))"

subsection \<open>Reset\<close>

definition Reset :: "decls \<Rightarrow> state \<Rightarrow> state" where
  "Reset A s =
     (let g = fold (\<lambda>i g. g[i := nullptr]) [0..<kNumberOfCpuRegisters A] (ctx_gprs s);
          f = fold (\<lambda>i f. f[i := nullptr]) [0..<kNumberOfFloatRegisters A] (ctx_fprs s)
      in s\<lparr>ctx_gprs := g[ESP A := addr_esp],
           ctx_fprs := f,
           ctx_esp := kBadGprBase A + of_nat (ESP A),
           ctx_eip := kBadGprBase A + of_nat (kNumberOfCpuRegisters A)\<rparr>)"

subsection \<open>FillCalleeSaves\<close>

text \<open>
  Modelled from the spec: \<^verbatim>\<open>POPCOUNT\<close> is a macro of \<^verbatim>\<open>utils.h\<close>, which is not among the
  sources; the spec says the decoder counts the set bits of a spill mask.
\<close>

definition POPCOUNT :: "uint32_t \<Rightarrow> nat" where
  "POPCOUNT m = length (filter (bit m) [0..<32])"

text \<open>The test \<^verbatim>\<open>((mask >> i) & 1) != 0\<close>.\<close>

definition mask_bit :: "uint32_t \<Rightarrow> nat \<Rightarrow> bool" where
  "mask_bit m i \<longleftrightarrow> (drop_bit i m AND 1) \<noteq> 0"

text \<open>
  The first loop, over the register indices still to visit. \<open>sc\<close> is \<^verbatim>\<open>spill_count\<close>
  (a \<^verbatim>\<open>size_t\<close>) and \<open>j\<close> the \<^verbatim>\<open>int\<close> counter: \<^verbatim>\<open>spill_count - j\<close> is computed in
  \<^verbatim>\<open>size_t\<close> and converted to the \<^verbatim>\<open>int\<close> parameter \<^verbatim>\<open>num\<close>.
\<close>

fun gpr_loop :: "StackVisitor \<Rightarrow> uint32_t \<Rightarrow> nat list \<Rightarrow> int \<Rightarrow> ptr list \<Rightarrow> ptr list" where
  "gpr_loop fr sc [] j g = g"
| "gpr_loop fr sc (i # rest) j g =
     (if mask_bit (CoreSpillMask fr) i
      then gpr_loop fr sc rest (j + 1)
             (g[i := CalleeSaveAddress fr (sint (sc - word_of_int j)) (FrameSizeInBytes fr)])
      else gpr_loop fr sc rest j g)"

text \<open>
  The second loop writes \<^verbatim>\<open>fprs_[2*i]\<close> and \<^verbatim>\<open>fprs_[2*i+1]\<close> while \<open>i\<close> runs up to
  \<^verbatim>\<open>kNumberOfFloatRegisters\<close>, with no check of the index against the size of the array.
  The members of \<^verbatim>\<open>X86Context\<close> lie in the order \<^verbatim>\<open>gprs_\<close>, \<^verbatim>\<open>fprs_\<close>, \<^verbatim>\<open>esp_\<close>, \<^verbatim>\<open>eip_\<close>
  (the order of their declarations in \<^verbatim>\<open>context_x86.h\<close>, which is not among the sources)
  and each is made of 32-bit words, so a write at index \<^verbatim>\<open>kNumberOfFloatRegisters\<close> lands
  on \<^verbatim>\<open>esp_\<close> and a write at the next index on \<^verbatim>\<open>eip_\<close>, which then hold the pointer as a
  number. A write further out leaves the object; the state tracks nothing there.
\<close>

definition ptr_word :: "decls \<Rightarrow> ptr \<Rightarrow> uintptr_t" where
  "ptr_word A p =
     (case p of
        nullptr \<Rightarrow> 0
      | addr_gZero \<Rightarrow> gZero_address A
      | addr_esp \<Rightarrow> esp_address A
      | Addr a \<Rightarrow> a)"

definition write_fprs :: "decls \<Rightarrow> nat \<Rightarrow> ptr \<Rightarrow> state \<Rightarrow> state" where
  "write_fprs A n p s =
     (if n < kNumberOfFloatRegisters A then s\<lparr>ctx_fprs := (ctx_fprs s)[n := p]\<rparr>
      else if n = kNumberOfFloatRegisters A then s\<lparr>ctx_esp := ptr_word A p\<rparr>
      else if n = kNumberOfFloatRegisters A + 1 then s\<lparr>ctx_eip := ptr_word A p\<rparr>
      else s)"

text \<open>\<open>j\<close> is a \<^verbatim>\<open>size_t\<close> here, \<open>w\<close> is \<^verbatim>\<open>fp_spill_size_in_words\<close>.\<close>

fun fpr_loop ::
  "decls \<Rightarrow> StackVisitor \<Rightarrow> uint32_t \<Rightarrow> uint32_t \<Rightarrow> nat list \<Rightarrow> uint32_t \<Rightarrow> state \<Rightarrow> state"
  where
  "fpr_loop A fr sc w [] j s = s"
| "fpr_loop A fr sc w (i # rest) j s =
     (if mask_bit (FpSpillMask fr) i then
        fpr_loop A fr sc w rest (j + 2)
          (write_fprs A (2 * i + 1)
             (CalleeSaveAddress fr (sint (sc + w - j - 1)) (FrameSizeInBytes fr))
             (write_fprs A (2 * i)
                (CalleeSaveAddress fr (sint (sc + w - j)) (FrameSizeInBytes fr)) s))
      else fpr_loop A fr sc w rest j s)"

definition FillCalleeSaves :: "decls \<Rightarrow> StackVisitor \<Rightarrow> op" where
  "FillCalleeSaves A fr s =
     (let spill_count = (of_nat (POPCOUNT (CoreSpillMask fr)) :: uint32_t);
          fp_spill_count = (of_nat (POPCOUNT (FpSpillMask fr)) :: uint32_t);
          s1 = (if spill_count > 0
                then s\<lparr>ctx_gprs :=
                       gpr_loop fr spill_count [0..<kNumberOfCpuRegisters A] 2 (ctx_gprs s)\<rparr>
                else s)
      in if fp_spill_count > 0 then
           (let fp_spill_size_in_words = fp_spill_count * 2
            in Inr (fpr_loop A fr spill_count fp_spill_size_in_words
                      [0..<kNumberOfFloatRegisters A] 2 s1))
         else Inr s1)"

subsection \<open>SmashCallerSaves\<close>

text \<open>
  \<^verbatim>\<open>memset(&fprs_[0], '\0', sizeof(fprs_))\<close> zeroes the whole array, whatever its size; the
  all-zero pointer is \<^verbatim>\<open>nullptr\<close>.
\<close>

definition SmashCallerSaves :: "decls \<Rightarrow> state \<Rightarrow> state" where
  "SmashCallerSaves A s =
     s\<lparr>ctx_gprs := (ctx_gprs s)[EAX A := addr_gZero, EDX A := addr_gZero,
                                 ECX A := nullptr, EBX A := nullptr],
       ctx_fprs := replicate (length (ctx_fprs s)) nullptr\<rparr>"

subsection \<open>SetGPR and SetFPR\<close>

definition SetGPR :: "decls \<Rightarrow> uint32_t \<Rightarrow> uintptr_t \<Rightarrow> op" where
  "SetGPR A reg v =
     seq (CHECK CHECK_LT_failed (\<lambda>s. reg < of_nat (kNumberOfCpuRegisters A)))
    (seq (DCHECK A (\<lambda>s. IsAccessibleGPR A s reg))
    (seq (CHECK CHECK_NE_failed (\<lambda>s. ctx_gprs s ! unat reg \<noteq> addr_gZero))
         (\<lambda>s. store (ctx_gprs s ! unat reg) v s)))"

definition SetFPR :: "decls \<Rightarrow> uint32_t \<Rightarrow> uintptr_t \<Rightarrow> op" where
  "SetFPR A reg v =
     seq (CHECK CHECK_LT_failed (\<lambda>s. reg < of_nat (kNumberOfFloatRegisters A)))
    (seq (DCHECK A (\<lambda>s. IsAccessibleFPR A s reg))
    (seq (CHECK CHECK_NE_failed (\<lambda>s. ctx_fprs s ! unat reg \<noteq> addr_gZero))
         (\<lambda>s. store (ctx_fprs s ! unat reg) v s)))"

subsection \<open>DoLongJump\<close>

text \<open>
  The part of \<^verbatim>\<open>DoLongJump\<close> written in C++: the two scratch buffers, the stack pointer
  and the store of \<^verbatim>\<open>eip_\<close>. The result is what the inline assembly is started on: the
  buffer \<^verbatim>\<open>gprs\<close>, the buffer \<^verbatim>\<open>fprs\<close> and the state. The buffers are uninitialised locals
  whose every entry is written; they start as zeros here. The store of \<^verbatim>\<open>eip_\<close> goes
  through \<^verbatim>\<open>reinterpret_cast<uintptr_t*>(esp)\<close>, a pointer made from a number, and faults
  when the process has no memory at that address.
\<close>

fun gprs_loop :: "decls \<Rightarrow> state \<Rightarrow> nat list \<Rightarrow> uintptr_t list \<Rightarrow> uintptr_t list outcome" where
  "gprs_loop A s [] b = Inr b"
| "gprs_loop A s (i # rest) b =
     (case (if ctx_gprs s ! i \<noteq> nullptr then load s (ctx_gprs s ! i)
            else Inr (kBadGprBase A + of_nat i)) of
        Inl a \<Rightarrow> Inl (a, s)
      | Inr v \<Rightarrow> gprs_loop A s rest (b[kNumberOfCpuRegisters A - i - 1 := v]))"

fun fprs_loop :: "decls \<Rightarrow> state \<Rightarrow> nat list \<Rightarrow> uint32_t list \<Rightarrow> uint32_t list outcome" where
  "fprs_loop A s [] b = Inr b"
| "fprs_loop A s (i # rest) b =
     (case (if ctx_fprs s ! i \<noteq> nullptr then load s (ctx_fprs s ! i)
            else Inr (kBadFprBase A + of_nat i)) of
        Inl a \<Rightarrow> Inl (a, s)
      | Inr v \<Rightarrow> fprs_loop A s rest (b[i := v]))"

definition DoLongJump ::
  "decls \<Rightarrow> state \<Rightarrow> (uintptr_t list \<times> uint32_t list \<times> state) outcome" where
  "DoLongJump A s =
     (if i386 A then
        (case gprs_loop A s [0..<kNumberOfCpuRegisters A]
                (replicate (kNumberOfCpuRegisters A + 1) 0) of
           Inl a \<Rightarrow> Inl a
         | Inr gprs \<Rightarrow>
            (case fprs_loop A s [0..<kNumberOfFloatRegisters A]
                    (replicate (kNumberOfFloatRegisters A) 0) of
               Inl a \<Rightarrow> Inl a
             | Inr fprs \<Rightarrow>
                (let esp = gprs ! (kNumberOfCpuRegisters A - ESP A - 1) - 4;
                     gprs = gprs[kNumberOfCpuRegisters A := esp]
                 in if mapped s esp then
                      (case store (Addr esp) (ctx_eip s) s of
                         Inl a \<Rightarrow> Inl a
                       | Inr s' \<Rightarrow> Inr (gprs, fprs, s'))
                    else Inl (SIGSEGV, s))))
      else Inl (UNIMPLEMENTED, s))"

subsection \<open>Sequences of calls\<close>

datatype call =
  Call_Reset
| Call_FillCalleeSaves StackVisitor
| Call_SmashCallerSaves
| Call_SetGPR uint32_t uintptr_t
| Call_SetFPR uint32_t uintptr_t

fun call_op :: "decls \<Rightarrow> call \<Rightarrow> op" where
  "call_op A Call_Reset = (\<lambda>s. Inr (Reset A s))"
| "call_op A (Call_FillCalleeSaves fr) = FillCalleeSaves A fr"
| "call_op A Call_SmashCallerSaves = (\<lambda>s. Inr (SmashCallerSaves A s))"
| "call_op A (Call_SetGPR reg v) = SetGPR A reg v"
| "call_op A (Call_SetFPR reg v) = SetFPR A reg v"

fun run :: "decls \<Rightarrow> call list \<Rightarrow> op" where
  "run A [] = Inr"
| "run A (c # cs) = seq (call_op A c) (run A cs)"

text \<open>
  A spill slot of a frame is a word of the stack: the frames handed to
  \<^verbatim>\<open>FillCalleeSaves\<close> in a sequence of calls return no null address.
\<close>

fun call_ok :: "call \<Rightarrow> bool" where
  "call_ok (Call_FillCalleeSaves fr) = (\<forall>num sz. CalleeSaveAddress fr num sz \<noteq> nullptr)"
| "call_ok _ = True"

subsection \<open>Notions the claims use\<close>

text \<open>
  The number of set bits of \<open>m\<close> below index \<open>i\<close>: register \<open>i\<close>, when its bit is set,
  carries the set bit number \<open>bits_below m i\<close>, counted from 0 and from the low end.
\<close>

definition bits_below :: "uint32_t \<Rightarrow> nat \<Rightarrow> nat" where
  "bits_below m i = length (filter (bit m) [0..<i])"

text \<open>
  What the long jump is to put into its buffer for a slot: the value \<open>bad\<close> when the slot
  is null, else the word the slot points to, which is 0 for \<open>gZero\<close>, the field \<open>esp_\<close>
  for \<^verbatim>\<open>&esp_\<close> and the word of memory at the address otherwise.
\<close>

definition slot_value :: "state \<Rightarrow> uintptr_t \<Rightarrow> ptr \<Rightarrow> uintptr_t" where
  "slot_value s bad p =
     (case p of
        nullptr \<Rightarrow> bad
      | addr_gZero \<Rightarrow> 0
      | addr_esp \<Rightarrow> ctx_esp s
      | Addr a \<Rightarrow> memory s a)"

text \<open>
  Modelled from the spec: \<^verbatim>\<open>kBadGprBase\<close> is a constant of \<^verbatim>\<open>context.h\<close>, which is not among
  the sources. The spec calls the values made of it, a fixed base plus a register's index,
  out-of-range debug sentinels, distinct from any valid address: the process has no memory
  at \<^verbatim>\<open>kBadGprBase + i\<close> for any index \<open>i\<close> up to \<^verbatim>\<open>kNumberOfCpuRegisters\<close>.
\<close>

definition kBadGprBase_out_of_range :: "decls \<Rightarrow> state \<Rightarrow> bool" where
  "kBadGprBase_out_of_range A s \<longleftrightarrow>
     list_all (\<lambda>i. \<not> mapped s (kBadGprBase A + of_nat i)) [0..<kNumberOfCpuRegisters A + 1]"

text \<open>The stack-pointer slot of a well-formed context is bound.\<close>

definition ESP_bound :: "decls \<Rightarrow> state \<Rightarrow> bool" where
  "ESP_bound A s \<longleftrightarrow> state_ok A s \<and> ctx_gprs s ! ESP A \<noteq> nullptr"

subsection \<open>A concrete instance\<close>

text \<open>
  The values of the 32-bit x86 port, used to run the model. The register numbers are the
  hardware encodings, which the \<^verbatim>\<open>popal\<close> of the long jump relies on (it pops EDI, ESI,
  EBP, a skipped word, EBX, EDX, ECX, EAX from \<^verbatim>\<open>gprs[0]\<close> upwards); the sixteen
  floating-point words are the 64 bytes that the eight \<^verbatim>\<open>movsd\<close> load. The two debug
  bases, the accessibility predicates (a register is accessible when its slot is bound)
  and the two addresses are one choice among those the theorems allow. The process of
  \<open>fresh\<close> has memory from \<open>0x1000\<close> up to \<open>0x4000\<close>.
\<close>

definition x86 :: decls where
  "x86 = \<lparr>kNumberOfCpuRegisters = 8, kNumberOfFloatRegisters = 16,
          EAX = 0, ECX = 1, EDX = 2, EBX = 3, ESP = 4, EBP = 5, ESI = 6, EDI = 7,
          kBadGprBase = 0xebad6070, kBadFprBase = 0xebad8070,
          IsAccessibleGPR = (\<lambda>s reg. ctx_gprs s ! unat reg \<noteq> nullptr),
          IsAccessibleFPR = (\<lambda>s reg. ctx_fprs s ! unat reg \<noteq> nullptr),
          kIsDebugBuild = True, i386 = True,
          gZero_address = 0x3E00, esp_address = 0x3F00\<rparr>"

definition fresh :: state where
  "fresh = \<lparr>ctx_gprs = replicate 8 (Addr 0x10), ctx_fprs = replicate 16 (Addr 0x20),
            ctx_esp = 0, ctx_eip = 0, memory = (\<lambda>a. 0),
            mapped = (\<lambda>a. 0x1000 \<le> a \<and> a < 0x4000)\<rparr>"

text \<open>
  A frame at address \<open>base\<close>, with the callee saves below the return address at the top
  of the frame.
\<close>

definition frame :: "uint32_t \<Rightarrow> uint32_t \<Rightarrow> uint32_t \<Rightarrow> uint32_t \<Rightarrow> StackVisitor" where
  "frame base core fp fsize =
     \<lparr>CoreSpillMask = core, FpSpillMask = fp, FrameSizeInBytes = fsize,
      CalleeSaveAddress = (\<lambda>num sz. Addr (base + sz - word_of_int ((num + 1) * 4) - 4))\<rparr>"

text \<open>States and a sequence of calls to run the model on.\<close>

definition smashed :: state where
  "smashed = SmashCallerSaves x86 (Reset x86 fresh)"

definition filled :: state where
  "filled = state_of (FillCalleeSaves x86 (frame 0x1000 0x1E0 0 64) (Reset x86 fresh))"

definition ready :: state where
  "ready = state_of (run x86 [Call_FillCalleeSaves (frame 0x1000 0x1E0 0 64),
                              Call_SetGPR 5 0xDEAD, Call_SetGPR 4 0x2000,
                              Call_SmashCallerSaves] (Reset x86 fresh))"

definition calls :: "call list" where
  "calls = [Call_FillCalleeSaves (frame 0x1000 0x1F0 0x5 64), Call_SetGPR 4 0x2000,
            Call_SetFPR 0 7, Call_SmashCallerSaves]"

section \<open>Auxiliary facts\<close>

subsection \<open>Outcomes, the headers and the concrete instance\<close>

lemma state_of_simps [simp]: "state_of (Inl (a, s)) = s" "state_of (Inr s) = s"
  by (simp_all add: state_of_def)

lemma decls_ok_x86: "decls_ok x86"
  by (simp add: decls_ok_def x86_def)

lemma x86_fields:
  "kNumberOfCpuRegisters x86 = 8" "kNumberOfFloatRegisters x86 = 16"
  "EAX x86 = 0" "ECX x86 = 1" "EDX x86 = 2" "EBX x86 = 3"
  "ESP x86 = 4" "EBP x86 = 5" "ESI x86 = 6" "EDI x86 = 7"
  "kBadGprBase x86 = 0xebad6070" "kBadFprBase x86 = 0xebad8070"
  "kIsDebugBuild x86" "i386 x86"
  by (simp_all add: x86_def)

lemma state_ok_fresh: "state_ok x86 fresh"
  by (simp add: state_ok_def x86_def fresh_def)

lemma decls_ok_ESP: "decls_ok A \<Longrightarrow> ESP A < kNumberOfCpuRegisters A"
  by (simp add: decls_ok_def)

lemma decls_ok_distinct:
  "decls_ok A \<Longrightarrow> distinct [EAX A, ECX A, EDX A, EBX A, ESP A, EBP A, ESI A, EDI A]"
  by (simp add: decls_ok_def)

lemma decls_ok_less:
  "decls_ok A \<Longrightarrow> EAX A < kNumberOfCpuRegisters A \<and> ECX A < kNumberOfCpuRegisters A \<and>
    EDX A < kNumberOfCpuRegisters A \<and> EBX A < kNumberOfCpuRegisters A"
  by (simp add: decls_ok_def)

subsection \<open>Masks and the conversions of the position number\<close>

lemma mask_bit_eq: "mask_bit m i = bit m i"
  unfolding mask_bit_def
  by (simp add: and_one_eq bit_iff_odd_drop_bit mod_2_eq_odd)

lemma sint_small: "- (2 ^ 31) \<le> x \<Longrightarrow> x < 2 ^ 31 \<Longrightarrow> sint (word_of_int x :: 32 word) = x"
  by (simp add: sint_sbintrunc' signed_take_bit_int_eq_self)

lemma takeWhile_upt: "i < n \<Longrightarrow> takeWhile (\<lambda>x. x \<noteq> i) [0..<n] = [0..<i]"
proof (induction n)
  case 0
  then show ?case by simp
next
  case (Suc n)
  show ?case
  proof (cases "i < n")
    case True
    then have "takeWhile (\<lambda>x. x \<noteq> i) ([0..<n] @ [n]) = takeWhile (\<lambda>x. x \<noteq> i) [0..<n]"
      by (intro takeWhile_append1[where x = i]) auto
    with True Suc.IH show ?thesis by simp
  next
    case False
    with Suc.prems have "i = n" by simp
    have "takeWhile (\<lambda>x. x \<noteq> n) ([0..<n] @ [n]) = [0..<n] @ takeWhile (\<lambda>x. x \<noteq> n) [n]"
      by (rule takeWhile_append2) auto
    with \<open>i = n\<close> show ?thesis by simp
  qed
qed

lemma POPCOUNT_le: "POPCOUNT m \<le> 32"
  unfolding POPCOUNT_def using length_filter_le[of "bit m" "[0..<32]"] by simp

lemma bits_below_le: "bits_below m i \<le> i"
  unfolding bits_below_def using length_filter_le[of "bit m" "[0..<i]"] by simp

lemma POPCOUNT_pos: "bit m i \<Longrightarrow> (0 :: 32 word) < of_nat (POPCOUNT m)"
proof -
  assume b: "bit m i"
  then have "i < 32" using bit_imp_le_length[of m i] by simp
  with b have "i \<in> set (filter (bit m) [0..<32])" by simp
  then have "0 < POPCOUNT m" unfolding POPCOUNT_def by (metis length_pos_if_in_set)
  moreover have "POPCOUNT m \<le> 32" by (rule POPCOUNT_le)
  ultimately show ?thesis
    by (simp add: word_less_nat_alt unat_of_nat)
qed

lemma spill_num:
  assumes "k \<le> 32"
  shows "sint ((of_nat (POPCOUNT m) :: 32 word) - word_of_int (2 + int k)) =
           int (POPCOUNT m) - int k - 2"
proof -
  have "(of_nat (POPCOUNT m) :: 32 word) - word_of_int (2 + int k) =
          word_of_int (int (POPCOUNT m) - int k - 2)"
    by (simp add: algebra_simps)
  moreover have "sint (word_of_int (int (POPCOUNT m) - int k - 2) :: 32 word) =
                   int (POPCOUNT m) - int k - 2"
    using POPCOUNT_le[of m] assms by (intro sint_small) auto
  ultimately show ?thesis by (simp only:)
qed

subsection \<open>The loop over the general-purpose registers\<close>

lemma length_gpr_loop: "length (gpr_loop fr sc xs j g) = length g"
  by (induction xs arbitrary: j g) simp_all

lemma gpr_loop_nth:
  "distinct xs \<Longrightarrow> i < length g \<Longrightarrow>
   gpr_loop fr sc xs j g ! i =
     (if i \<in> set xs \<and> bit (CoreSpillMask fr) i
      then CalleeSaveAddress fr
             (sint (sc - word_of_int
                (j + int (length (filter (bit (CoreSpillMask fr))
                                   (takeWhile (\<lambda>x. x \<noteq> i) xs))))))
             (FrameSizeInBytes fr)
      else g ! i)"
proof (induction xs arbitrary: j g)
  case Nil
  then show ?case by simp
next
  case (Cons x xs)
  then show ?case
    by (auto simp: mask_bit_eq nth_list_update add.assoc)
qed

lemma gpr_loop_upt_nth:
  assumes "i < n" "n \<le> length g"
  shows "gpr_loop fr sc [0..<n] j g ! i =
     (if bit (CoreSpillMask fr) i
      then CalleeSaveAddress fr
             (sint (sc - word_of_int (j + int (bits_below (CoreSpillMask fr) i))))
             (FrameSizeInBytes fr)
      else g ! i)"
  using assms gpr_loop_nth[of "[0..<n]" i g fr sc j]
  by (simp add: takeWhile_upt bits_below_def)

subsection \<open>The loop over the floating-point registers\<close>

lemma write_fprs_rest:
  "ctx_gprs (write_fprs A n p s) = ctx_gprs s \<and> memory (write_fprs A n p s) = memory s \<and>
   mapped (write_fprs A n p s) = mapped s \<and>
   length (ctx_fprs (write_fprs A n p s)) = length (ctx_fprs s)"
  by (simp add: write_fprs_def)

lemma ctx_fprs_write_fprs:
  "ctx_fprs (write_fprs A n p s) =
     (if n < kNumberOfFloatRegisters A then (ctx_fprs s)[n := p] else ctx_fprs s)"
  by (simp add: write_fprs_def)


lemma fpr_loop_keeps_rest:
  "ctx_gprs (fpr_loop A fr sc w xs j s) = ctx_gprs s \<and>
   memory (fpr_loop A fr sc w xs j s) = memory s \<and>
   mapped (fpr_loop A fr sc w xs j s) = mapped s \<and>
   length (ctx_fprs (fpr_loop A fr sc w xs j s)) = length (ctx_fprs s)"
  by (induction xs arbitrary: j s) (simp_all add: write_fprs_rest)



lemma fpr_loop_reads_nothing:
  "ctx_fprs s = ctx_fprs t \<Longrightarrow>
   ctx_fprs (fpr_loop A fr sc w xs j s) = ctx_fprs (fpr_loop A fr sc w xs j t)"
proof (induction xs arbitrary: j s t)
  case Nil
  then show ?case by simp
next
  case (Cons x xs)
  let ?a0 = "CalleeSaveAddress fr (sint (sc + w - j)) (FrameSizeInBytes fr)"
  let ?a1 = "CalleeSaveAddress fr (sint (sc + w - j - 1)) (FrameSizeInBytes fr)"
  have "ctx_fprs (write_fprs A (2 * x + 1) ?a1 (write_fprs A (2 * x) ?a0 s)) =
        ctx_fprs (write_fprs A (2 * x + 1) ?a1 (write_fprs A (2 * x) ?a0 t))"
    using Cons.prems by (simp add: ctx_fprs_write_fprs)
  from Cons.IH[OF this] Cons.IH[OF Cons.prems] show ?case by simp
qed

lemma fpr_loop_result:
  assumes "distinct xs"
    and "\<forall>x\<in>set xs. bit (FpSpillMask fr) x \<longrightarrow> 2 * x + 1 < kNumberOfFloatRegisters A"
    and "length (ctx_fprs s) = kNumberOfFloatRegisters A"
    and "n < kNumberOfFloatRegisters A"
  shows "ctx_fprs (fpr_loop A fr sc w xs j s) ! n =
        (if n div 2 \<in> set xs \<and> bit (FpSpillMask fr) (n div 2)
         then CalleeSaveAddress fr
                (sint (sc + w - (j + 2 * of_nat (length (filter (bit (FpSpillMask fr))
                                   (takeWhile (\<lambda>x. x \<noteq> n div 2) xs)))) - of_nat (n mod 2)))
                (FrameSizeInBytes fr)
         else ctx_fprs s ! n)"
  using assms
proof (induction xs arbitrary: j s)
  case Nil
  then show ?case by simp
next
  case (Cons x xs)
  let ?m = "FpSpillMask fr"
  let ?NF = "kNumberOfFloatRegisters A"
  from Cons.prems have d: "distinct xs" "x \<notin> set xs"
    and r: "\<forall>y\<in>set xs. bit ?m y \<longrightarrow> 2 * y + 1 < ?NF" by simp_all
  show ?case
  proof (cases "bit ?m x")
    case False
    with Cons.IH[OF d(1) r Cons.prems(3,4), of j] show ?thesis
      by (auto simp: mask_bit_eq)
  next
    case True
    with Cons.prems(2) have x: "2 * x + 1 < ?NF" by simp
    let ?a0 = "CalleeSaveAddress fr (sint (sc + w - j)) (FrameSizeInBytes fr)"
    let ?a1 = "CalleeSaveAddress fr (sint (sc + w - j - 1)) (FrameSizeInBytes fr)"
    let ?s2 = "write_fprs A (2 * x + 1) ?a1 (write_fprs A (2 * x) ?a0 s)"
    have l2: "length (ctx_fprs ?s2) = ?NF" using Cons.prems(3) by (simp add: write_fprs_rest)
    have step: "fpr_loop A fr sc w (x # xs) j s = fpr_loop A fr sc w xs (j + 2) ?s2"
      using True by (simp add: mask_bit_eq)
    note ih = Cons.IH[OF d(1) r l2 Cons.prems(4), of "j + 2"]
    consider (lower) "n = 2 * x" | (upper) "n = 2 * x + 1" | (other) "n div 2 \<noteq> x" by linarith
    then show ?thesis
    proof cases
      case lower
      then have "n div 2 = x" "n mod 2 = 0" by auto
      with ih d(2) True lower x Cons.prems(3) show ?thesis
        unfolding step by (simp add: ctx_fprs_write_fprs)
    next
      case upper
      then have "n div 2 = x" "n mod 2 = 1" by auto
      with ih d(2) True upper x Cons.prems(3) show ?thesis
        unfolding step by (simp add: ctx_fprs_write_fprs)
    next
      case other
      then have ne: "n \<noteq> 2 * x" "n \<noteq> 2 * x + 1" by auto
      with ih other True show ?thesis
        unfolding step by (simp add: ctx_fprs_write_fprs algebra_simps)
    qed
  qed
qed

lemma fp_num:
  assumes "k \<le> 32" and "b \<le> 1"
  shows "sint ((of_nat (POPCOUNT m) :: 32 word) + of_nat (POPCOUNT m') * 2 - (2 + 2 * of_nat k) - of_nat b) =
           int (POPCOUNT m) + 2 * int (POPCOUNT m') - 2 * int k - 2 - int b"
proof -
  have "(of_nat (POPCOUNT m) :: 32 word) + of_nat (POPCOUNT m') * 2 - (2 + 2 * of_nat k) - of_nat b =
          word_of_int (int (POPCOUNT m) + 2 * int (POPCOUNT m') - 2 * int k - 2 - int b)"
    by (simp add: algebra_simps)
  moreover have "sint (word_of_int (int (POPCOUNT m) + 2 * int (POPCOUNT m') - 2 * int k - 2 - int b) :: 32 word) =
                   int (POPCOUNT m) + 2 * int (POPCOUNT m') - 2 * int k - 2 - int b"
    using POPCOUNT_le[of m] POPCOUNT_le[of m'] assms by (intro sint_small) auto
  ultimately show ?thesis by (simp only:)
qed

subsection \<open>FillCalleeSaves as a whole\<close>

lemma FillCalleeSaves_returns: "FillCalleeSaves A fr s = Inr (state_of (FillCalleeSaves A fr s))"
  by (simp add: FillCalleeSaves_def Let_def)

lemma ctx_gprs_FillCalleeSaves:
  "ctx_gprs (state_of (FillCalleeSaves A fr s)) =
     (if (0 :: 32 word) < of_nat (POPCOUNT (CoreSpillMask fr))
      then gpr_loop fr (of_nat (POPCOUNT (CoreSpillMask fr)))
             [0..<kNumberOfCpuRegisters A] 2 (ctx_gprs s)
      else ctx_gprs s)"
  by (simp add: FillCalleeSaves_def Let_def fpr_loop_keeps_rest)

lemma ctx_fprs_FillCalleeSaves:
  "ctx_fprs (state_of (FillCalleeSaves A fr s)) =
     (if (0 :: 32 word) < of_nat (POPCOUNT (FpSpillMask fr))
      then ctx_fprs (fpr_loop A fr (of_nat (POPCOUNT (CoreSpillMask fr)))
             (of_nat (POPCOUNT (FpSpillMask fr)) * 2)
             [0..<kNumberOfFloatRegisters A] 2 s)
      else ctx_fprs s)"
proof -
  have "ctx_fprs (fpr_loop A fr sc w xs j (s\<lparr>ctx_gprs := g\<rparr>)) = ctx_fprs (fpr_loop A fr sc w xs j s)"
    for sc w xs j g
    by (rule fpr_loop_reads_nothing) simp
  then show ?thesis by (simp add: FillCalleeSaves_def Let_def)
qed



lemma state_ok_FillCalleeSaves:
  "state_ok A s \<Longrightarrow> state_ok A (state_of (FillCalleeSaves A fr s))"
  by (simp add: state_ok_def FillCalleeSaves_def Let_def length_gpr_loop fpr_loop_keeps_rest)

text \<open>
  A floating-point mask with bit 8 set names a register that has no slots among the
  sixteen. The loop then writes \<^verbatim>\<open>fprs_[16]\<close> and \<^verbatim>\<open>fprs_[17]\<close>: for a frame at \<open>0x1000\<close>
  of 64 bytes with no other spill the call returns with \<open>esp_ = 0x1038\<close> and
  \<open>eip_ = 0x103C\<close>, and with every slot as \<open>Reset\<close> left it.
\<close>

lemma FillCalleeSaves_past_fprs:
  "ctx_esp (state_of (FillCalleeSaves x86 (frame 0x1000 0 0x100 64) (Reset x86 fresh))) = 0x1038 \<and>
   ctx_eip (state_of (FillCalleeSaves x86 (frame 0x1000 0 0x100 64) (Reset x86 fresh))) = 0x103C \<and>
   ctx_gprs (state_of (FillCalleeSaves x86 (frame 0x1000 0 0x100 64) (Reset x86 fresh))) =
     ctx_gprs (Reset x86 fresh) \<and>
   ctx_fprs (state_of (FillCalleeSaves x86 (frame 0x1000 0 0x100 64) (Reset x86 fresh))) =
     ctx_fprs (Reset x86 fresh)"
  by code_simp

subsection \<open>Reset\<close>

lemma length_fold_clear: "length (fold (\<lambda>i g. g[i := v]) xs g) = length g"
  by (induction xs arbitrary: g) simp_all

lemma fold_clear_nth:
  "i < length g \<Longrightarrow> fold (\<lambda>i g. g[i := v]) xs g ! i = (if i \<in> set xs then v else g ! i)"
  by (induction xs arbitrary: g) (auto simp: nth_list_update)

lemma state_ok_Reset: "state_ok A s \<Longrightarrow> state_ok A (Reset A s)"
  by (simp add: state_ok_def Reset_def Let_def length_fold_clear)

lemma Reset_gprs_nth:
  "state_ok A s \<Longrightarrow> i < kNumberOfCpuRegisters A \<Longrightarrow>
   ctx_gprs (Reset A s) ! i = (if i = ESP A then addr_esp else nullptr)"
  by (simp add: state_ok_def Reset_def Let_def length_fold_clear fold_clear_nth nth_list_update)

lemma Reset_fprs_nth:
  "state_ok A s \<Longrightarrow> i < kNumberOfFloatRegisters A \<Longrightarrow> ctx_fprs (Reset A s) ! i = nullptr"
  by (simp add: state_ok_def Reset_def Let_def fold_clear_nth)

lemma of_nat_neq_32: "a < b \<Longrightarrow> b \<le> 32 \<Longrightarrow> (of_nat a :: 32 word) \<noteq> of_nat b"
proof
  assume a: "a < b" "b \<le> 32" and e: "(of_nat a :: 32 word) = of_nat b"
  from a have "unat (of_nat a :: 32 word) = a" "unat (of_nat b :: 32 word) = b"
    by (simp_all add: unat_of_nat)
  with e a show False by simp
qed

subsection \<open>Stores and the two setters\<close>

lemma store_stops_unchanged: "store p v s = Inl (a, s') \<Longrightarrow> s' = s"
  by (auto simp: store_def split: ptr.splits)

lemma store_bindings:
  "ctx_gprs (state_of (store p v s)) = ctx_gprs s \<and> ctx_fprs (state_of (store p v s)) = ctx_fprs s"
  by (simp add: store_def split: ptr.splits)

lemma store_load:
  "p \<noteq> nullptr \<Longrightarrow> p \<noteq> addr_gZero \<Longrightarrow> \<exists>s'. store p v s = Inr s' \<and> load s' p = Inr v"
  by (cases p) (simp_all add: store_def load_def)

lemma store_isl: "p = nullptr \<or> p = addr_gZero \<Longrightarrow> isl (store p v s)"
  by (auto simp: store_def)

lemma setter_stops_unchanged:
  assumes "seq (CHECK e1 b1) (seq (DCHECK A b2) (seq (CHECK e3 b3) (\<lambda>s. store (sl s) v s))) s = Inl (a, s')"
  shows "s' = s"
  using assms
  by (auto simp: seq_def CHECK_def DCHECK_def split: if_splits sum.splits dest: store_stops_unchanged)

lemma SetGPR_stops_unchanged: "SetGPR A reg v s = Inl (a, s') \<Longrightarrow> s' = s"
  unfolding SetGPR_def by (rule setter_stops_unchanged)

lemma SetFPR_stops_unchanged: "SetFPR A reg v s = Inl (a, s') \<Longrightarrow> s' = s"
  unfolding SetFPR_def by (rule setter_stops_unchanged)

lemma setter_out_of_range:
  "\<not> b1 s \<Longrightarrow> seq (CHECK e1 b1) g s = Inl (e1, s)"
  by (simp add: seq_def CHECK_def)

lemma setter_unwritable:
  assumes "sl s = nullptr \<or> sl s = addr_gZero"
  shows "isl (seq (CHECK e1 b1) (seq (DCHECK A b2) (seq (CHECK e3 b3) (\<lambda>s. store (sl s) v s))) s)"
  using assms store_isl[of "sl s" v s]
  by (auto simp: seq_def CHECK_def DCHECK_def)

lemma setter_writes:
  assumes "b1 s" and "kIsDebugBuild A \<longrightarrow> b2 s" and "b3 s"
  shows "seq (CHECK e1 b1) (seq (DCHECK A b2) (seq (CHECK e3 b3) (\<lambda>s. store (sl s) v s))) s = store (sl s) v s"
  using assms by (simp add: seq_def CHECK_def DCHECK_def)

lemma setter_bindings:
  "ctx_gprs (state_of (seq (CHECK e1 b1) (seq (DCHECK A b2) (seq (CHECK e3 b3) (\<lambda>s. store (sl s) v s))) s)) = ctx_gprs s \<and>
   ctx_fprs (state_of (seq (CHECK e1 b1) (seq (DCHECK A b2) (seq (CHECK e3 b3) (\<lambda>s. store (sl s) v s))) s)) = ctx_fprs s"
  using store_bindings[of "sl s" v s]
  by (simp add: seq_def CHECK_def DCHECK_def)

lemma SetGPR_bindings:
  "ctx_gprs (state_of (SetGPR A reg v s)) = ctx_gprs s \<and>
   ctx_fprs (state_of (SetGPR A reg v s)) = ctx_fprs s"
  unfolding SetGPR_def by (rule setter_bindings)

lemma SetFPR_bindings:
  "ctx_gprs (state_of (SetFPR A reg v s)) = ctx_gprs s \<and>
   ctx_fprs (state_of (SetFPR A reg v s)) = ctx_fprs s"
  unfolding SetFPR_def by (rule setter_bindings)

subsection \<open>The buffers of the long jump\<close>

lemma slot_read:
  "(if p \<noteq> nullptr then load s p else Inr bad) = Inr (slot_value s bad p)"
  by (cases p) (simp_all add: load_def slot_value_def)

lemma gprs_loop_result:
  "distinct xs \<Longrightarrow> \<forall>x\<in>set xs. x < kNumberOfCpuRegisters A \<Longrightarrow>
   \<exists>b'. gprs_loop A s xs b = Inr b' \<and> length b' = length b \<and>
     (\<forall>m < length b. b' ! m =
        (if m < kNumberOfCpuRegisters A \<and> kNumberOfCpuRegisters A - 1 - m \<in> set xs
         then slot_value s (kBadGprBase A + of_nat (kNumberOfCpuRegisters A - 1 - m))
                (ctx_gprs s ! (kNumberOfCpuRegisters A - 1 - m))
         else b ! m))"
proof (induction xs arbitrary: b)
  case Nil
  then show ?case by simp
next
  case (Cons x xs)
  let ?N = "kNumberOfCpuRegisters A"
  let ?v = "slot_value s (kBadGprBase A + of_nat x) (ctx_gprs s ! x)"
  from Cons.prems have xN: "x < ?N" and d: "distinct xs" "x \<notin> set xs"
    and r: "\<forall>y\<in>set xs. y < ?N" by simp_all
  from Cons.IH[OF d(1) r, of "b[?N - x - 1 := ?v]"] obtain b' where
    b': "gprs_loop A s xs (b[?N - x - 1 := ?v]) = Inr b'" "length b' = length b"
    "\<forall>m < length b. b' ! m =
        (if m < ?N \<and> ?N - 1 - m \<in> set xs
         then slot_value s (kBadGprBase A + of_nat (?N - 1 - m)) (ctx_gprs s ! (?N - 1 - m))
         else (b[?N - x - 1 := ?v]) ! m)"
    by auto
  have step: "gprs_loop A s (x # xs) b = Inr b'"
    using b'(1) by (simp add: slot_read)
  have "\<forall>m < length b. b' ! m =
        (if m < ?N \<and> ?N - 1 - m \<in> set (x # xs)
         then slot_value s (kBadGprBase A + of_nat (?N - 1 - m)) (ctx_gprs s ! (?N - 1 - m))
         else b ! m)"
  proof (intro allI impI)
    fix m assume m: "m < length b"
    show "b' ! m =
        (if m < ?N \<and> ?N - 1 - m \<in> set (x # xs)
         then slot_value s (kBadGprBase A + of_nat (?N - 1 - m)) (ctx_gprs s ! (?N - 1 - m))
         else b ! m)"
    proof (cases "m = ?N - x - 1")
      case True
      with xN have "?N - 1 - m = x" "m < ?N" by auto
      with b'(3) m d(2) True show ?thesis by (simp add: nth_list_update)
    next
      case False
      with xN have "\<not> (m < ?N \<and> ?N - 1 - m = x)" by auto
      with b'(3) m False show ?thesis by (auto simp: nth_list_update)
    qed
  qed
  with step b'(2) show ?case by blast
qed

lemma fprs_loop_result:
  "distinct xs \<Longrightarrow>
   \<exists>b'. fprs_loop A s xs b = Inr b' \<and> length b' = length b \<and>
     (\<forall>m < length b. b' ! m =
        (if m \<in> set xs then slot_value s (kBadFprBase A + of_nat m) (ctx_fprs s ! m) else b ! m))"
proof (induction xs arbitrary: b)
  case Nil
  then show ?case by simp
next
  case (Cons x xs)
  let ?v = "slot_value s (kBadFprBase A + of_nat x) (ctx_fprs s ! x)"
  from Cons.prems have d: "distinct xs" "x \<notin> set xs" by simp_all
  from Cons.IH[OF d(1), of "b[x := ?v]"] obtain b' where
    b': "fprs_loop A s xs (b[x := ?v]) = Inr b'" "length b' = length b"
    "\<forall>m < length b. b' ! m =
        (if m \<in> set xs then slot_value s (kBadFprBase A + of_nat m) (ctx_fprs s ! m)
         else (b[x := ?v]) ! m)"
    by auto
  have step: "fprs_loop A s (x # xs) b = Inr b'"
    using b'(1) by (simp add: slot_read)
  from b'(3) d(2) have "\<forall>m < length b. b' ! m =
        (if m \<in> set (x # xs) then slot_value s (kBadFprBase A + of_nat m) (ctx_fprs s ! m)
         else b ! m)"
    by (auto simp: nth_list_update)
  with step b'(2) show ?case by blast
qed

subsection \<open>The stack-pointer slot along a sequence of calls\<close>

lemma ESP_bound_Reset: "decls_ok A \<Longrightarrow> state_ok A s \<Longrightarrow> ESP_bound A (Reset A s)"
  by (simp add: ESP_bound_def state_ok_Reset Reset_gprs_nth decls_ok_ESP)

lemma ESP_bound_Smash:
  "decls_ok A \<Longrightarrow> ESP_bound A s \<Longrightarrow> ESP_bound A (SmashCallerSaves A s)"
  using decls_ok_distinct[of A]
  by (auto simp: ESP_bound_def SmashCallerSaves_def state_ok_def)

lemma ESP_bound_Fill:
  assumes "decls_ok A" and "ESP_bound A s" and "\<forall>num sz. CalleeSaveAddress fr num sz \<noteq> nullptr"
  shows "ESP_bound A (state_of (FillCalleeSaves A fr s))"
proof -
  have ok: "state_ok A s" and b: "ctx_gprs s ! ESP A \<noteq> nullptr"
    using assms(2) by (simp_all add: ESP_bound_def)
  have len: "kNumberOfCpuRegisters A \<le> length (ctx_gprs s)" using ok by (simp add: state_ok_def)
  have "ctx_gprs (state_of (FillCalleeSaves A fr s)) ! ESP A \<noteq> nullptr"
    using b assms(3) gpr_loop_upt_nth[OF decls_ok_ESP[OF assms(1)] len]
    by (simp add: ctx_gprs_FillCalleeSaves)
  with ok show ?thesis by (simp add: ESP_bound_def state_ok_FillCalleeSaves)
qed

lemma ESP_bound_call:
  assumes "decls_ok A" and "ESP_bound A s" and "call_ok c"
  shows "ESP_bound A (state_of (call_op A c s))"
proof (cases c)
  case Call_Reset
  with ESP_bound_Reset[OF assms(1), of s] assms(2) show ?thesis by (simp add: ESP_bound_def)
next
  case (Call_FillCalleeSaves fr)
  with assms show ?thesis by (simp add: ESP_bound_Fill)
next
  case Call_SmashCallerSaves
  with assms show ?thesis by (simp add: ESP_bound_Smash)
next
  case (Call_SetGPR reg v)
  with assms(2) show ?thesis by (simp add: ESP_bound_def state_ok_def SetGPR_bindings)
next
  case (Call_SetFPR reg v)
  with assms(2) show ?thesis by (simp add: ESP_bound_def state_ok_def SetFPR_bindings)
qed

lemma ESP_bound_run:
  "decls_ok A \<Longrightarrow> ESP_bound A s \<Longrightarrow> list_all call_ok cs \<Longrightarrow>
   ESP_bound A (state_of (run A cs s))"
proof (induction cs arbitrary: s)
  case Nil
  then show ?case by simp
next
  case (Cons c cs)
  from Cons.prems have c: "call_ok c" and cs: "list_all call_ok cs" by simp_all
  have step: "ESP_bound A (state_of (call_op A c s))"
    using Cons.prems(1,2) c by (rule ESP_bound_call)
  show ?case
  proof (cases "call_op A c s")
    case (Inl a)
    with step show ?thesis by (cases a) (simp add: seq_def)
  next
    case (Inr s1)
    with step have "ESP_bound A s1" by simp
    from Cons.IH[OF Cons.prems(1) this cs] Inr show ?thesis by (simp add: seq_def)
  qed
qed

section \<open>The claims\<close>

text \<open>
  C1. Let the general-purpose spill mask of a frame have \<open>spill_count\<close> set bits, and let
  register \<open>i\<close> carry set bit number \<open>k\<close>, counted from 0 and from the low end. Then
  \<open>FillCalleeSaves\<close> binds slot \<open>i\<close> to \<open>CalleeSaveAddress (spill_count - k - 2)\<close>: the
  position \<open>spill_count - k\<close>, less the two leading positions skipped for the return
  address (\<open>j\<close> starts at 2), so that the lowest spilled register gets the highest
  position number. This holds in the state the call ends in, whatever the
  floating-point loop that follows writes.
\<close>

theorem FillCalleeSaves_binds_gpr:
  assumes "decls_ok A" and "state_ok A s"
    and "i < kNumberOfCpuRegisters A" and "bit (CoreSpillMask fr) i"
    and "POPCOUNT (CoreSpillMask fr) = spill_count"
    and "bits_below (CoreSpillMask fr) i = k"
  shows "ctx_gprs (state_of (FillCalleeSaves A fr s)) ! i =
           CalleeSaveAddress fr (int spill_count - int k - 2) (FrameSizeInBytes fr)"
proof -
  have len: "kNumberOfCpuRegisters A \<le> length (ctx_gprs s)"
    using assms(2) by (simp add: state_ok_def)
  have "i < 32" using assms(4) bit_imp_le_length[of "CoreSpillMask fr" i] by simp
  then have k: "k \<le> 32" using bits_below_le[of "CoreSpillMask fr" i] assms(6) by simp
  have pos: "(0 :: 32 word) < of_nat (POPCOUNT (CoreSpillMask fr))"
    using assms(4) by (rule POPCOUNT_pos)
  show ?thesis
    using pos gpr_loop_upt_nth[OF assms(3) len, of fr _ 2] assms(4)
      spill_num[OF k, of "CoreSpillMask fr"]
    by (simp add: ctx_gprs_FillCalleeSaves assms(5)[symmetric] assms(6))
qed

text \<open>
  A frame at \<open>0x1000\<close> of 64 bytes that spilled EBP, ESI, EDI and the return address
  (mask \<open>0x1E0\<close>): EBP carries set bit 0 of 4 and gets position 2, the word at \<open>0x1030\<close>.
\<close>

theorem FillCalleeSaves_binds_gpr_witness:
  "decls_ok x86 \<and> state_ok x86 fresh \<and> 5 < kNumberOfCpuRegisters x86 \<and>
   bit (CoreSpillMask (frame 0x1000 0x1E0 0 64)) 5 \<and>
   POPCOUNT (CoreSpillMask (frame 0x1000 0x1E0 0 64)) = 4 \<and>
   bits_below (CoreSpillMask (frame 0x1000 0x1E0 0 64)) 5 = 0 \<and>
   ctx_gprs (state_of (FillCalleeSaves x86 (frame 0x1000 0x1E0 0 64) fresh)) ! 5 = Addr 0x1030"
proof -
  have h1: "decls_ok x86" by (simp add: decls_ok_def x86_def)
  have h2: "state_ok x86 fresh" by (simp add: state_ok_def x86_def fresh_def)
  have h3: "5 < kNumberOfCpuRegisters x86" by (simp add: x86_def)
  have h4: "bit (CoreSpillMask (frame 0x1000 0x1E0 0 64)) 5" by (simp add: frame_def)
  have h5: "POPCOUNT (CoreSpillMask (frame 0x1000 0x1E0 0 64)) = 4" by code_simp
  have h6: "bits_below (CoreSpillMask (frame 0x1000 0x1E0 0 64)) 5 = 0" by code_simp
  have "CalleeSaveAddress (frame 0x1000 0x1E0 0 64) (int 4 - int 0 - 2)
          (FrameSizeInBytes (frame 0x1000 0x1E0 0 64)) = Addr 0x1030"
    by (simp add: frame_def)
  with FillCalleeSaves_binds_gpr[OF h1 h2 h3 h4 h5 h6] h1 h2 h3 h4 h5 h6
  show ?thesis by simp
qed

text \<open>
  C2. \<open>SetGPR\<close> stops with the failed \<^verbatim>\<open>CHECK_LT\<close> when the index is out of range. It
  is fatal when the slot is unbound or bound to \<open>gZero\<close>: a \<^verbatim>\<open>DCHECK\<close> or the
  \<^verbatim>\<open>CHECK_NE\<close> fails, or (for an unbound slot, when no check catches it) the store
  through the null pointer faults. Otherwise, when the debug assertion of accessibility
  passes where it is compiled in, the call returns and the word the slot references holds
  \<open>v\<close>. The same holds for \<open>SetFPR\<close>.
\<close>

theorem SetGPR_SetFPR_contract:
  assumes "decls_ok A" and "state_ok A s"
  shows "(\<not> reg < of_nat (kNumberOfCpuRegisters A) \<longrightarrow> SetGPR A reg v s = Inl (CHECK_LT_failed, s)) \<and>
         (ctx_gprs s ! unat reg = nullptr \<or> ctx_gprs s ! unat reg = addr_gZero \<longrightarrow> isl (SetGPR A reg v s)) \<and>
         (reg < of_nat (kNumberOfCpuRegisters A) \<and> ctx_gprs s ! unat reg \<noteq> nullptr \<and>
          ctx_gprs s ! unat reg \<noteq> addr_gZero \<and> (kIsDebugBuild A \<longrightarrow> IsAccessibleGPR A s reg) \<longrightarrow>
            (\<exists>s'. SetGPR A reg v s = Inr s' \<and> load s' (ctx_gprs s ! unat reg) = Inr v)) \<and>
         (\<not> reg < of_nat (kNumberOfFloatRegisters A) \<longrightarrow> SetFPR A reg v s = Inl (CHECK_LT_failed, s)) \<and>
         (ctx_fprs s ! unat reg = nullptr \<or> ctx_fprs s ! unat reg = addr_gZero \<longrightarrow> isl (SetFPR A reg v s)) \<and>
         (reg < of_nat (kNumberOfFloatRegisters A) \<and> ctx_fprs s ! unat reg \<noteq> nullptr \<and>
          ctx_fprs s ! unat reg \<noteq> addr_gZero \<and> (kIsDebugBuild A \<longrightarrow> IsAccessibleFPR A s reg) \<longrightarrow>
            (\<exists>s'. SetFPR A reg v s = Inr s' \<and> load s' (ctx_fprs s ! unat reg) = Inr v))"
proof -
  have g1: "\<not> reg < of_nat (kNumberOfCpuRegisters A) \<longrightarrow> SetGPR A reg v s = Inl (CHECK_LT_failed, s)"
    unfolding SetGPR_def by (simp add: setter_out_of_range)
  have g2: "ctx_gprs s ! unat reg = nullptr \<or> ctx_gprs s ! unat reg = addr_gZero \<longrightarrow> isl (SetGPR A reg v s)"
    unfolding SetGPR_def using setter_unwritable[of "\<lambda>s. ctx_gprs s ! unat reg" s] by blast
  have g3: "reg < of_nat (kNumberOfCpuRegisters A) \<and> ctx_gprs s ! unat reg \<noteq> nullptr \<and>
          ctx_gprs s ! unat reg \<noteq> addr_gZero \<and> (kIsDebugBuild A \<longrightarrow> IsAccessibleGPR A s reg) \<longrightarrow>
            (\<exists>s'. SetGPR A reg v s = Inr s' \<and> load s' (ctx_gprs s ! unat reg) = Inr v)"
    unfolding SetGPR_def using store_load[of "ctx_gprs s ! unat reg" v s]
    by (simp add: setter_writes)
  have f1: "\<not> reg < of_nat (kNumberOfFloatRegisters A) \<longrightarrow> SetFPR A reg v s = Inl (CHECK_LT_failed, s)"
    unfolding SetFPR_def by (simp add: setter_out_of_range)
  have f2: "ctx_fprs s ! unat reg = nullptr \<or> ctx_fprs s ! unat reg = addr_gZero \<longrightarrow> isl (SetFPR A reg v s)"
    unfolding SetFPR_def using setter_unwritable[of "\<lambda>s. ctx_fprs s ! unat reg" s] by blast
  have f3: "reg < of_nat (kNumberOfFloatRegisters A) \<and> ctx_fprs s ! unat reg \<noteq> nullptr \<and>
          ctx_fprs s ! unat reg \<noteq> addr_gZero \<and> (kIsDebugBuild A \<longrightarrow> IsAccessibleFPR A s reg) \<longrightarrow>
            (\<exists>s'. SetFPR A reg v s = Inr s' \<and> load s' (ctx_fprs s ! unat reg) = Inr v)"
    unfolding SetFPR_def using store_load[of "ctx_fprs s ! unat reg" v s]
    by (simp add: setter_writes)
  from g1 g2 g3 f1 f2 f3 show ?thesis by blast
qed

text \<open>
  On the x86 values: index 8 is out of range; after \<open>SmashCallerSaves\<close> EAX is bound to
  \<open>gZero\<close> and floating-point slot 3 is unbound; after \<open>FillCalleeSaves\<close> on a frame that
  spilled EBP, \<open>SetGPR(EBP, 0xDEAD)\<close> is read back from the frame's word at \<open>0x1030\<close>.
\<close>

theorem SetGPR_SetFPR_contract_witness:
  "decls_ok x86 \<and> state_ok x86 filled \<and> state_ok x86 smashed \<and>
   SetGPR x86 8 1 filled = Inl (CHECK_LT_failed, filled) \<and>
   ctx_gprs smashed ! unat (0 :: 32 word) = addr_gZero \<and> isl (SetGPR x86 0 1 smashed) \<and>
   ctx_fprs smashed ! unat (3 :: 32 word) = nullptr \<and> isl (SetFPR x86 3 1 smashed) \<and>
   ctx_gprs filled ! unat (5 :: 32 word) = Addr 0x1030 \<and>
   (\<exists>s'. SetGPR x86 5 0xDEAD filled = Inr s' \<and> memory s' 0x1030 = 0xDEAD)"
proof -
  have h: "decls_ok x86" "state_ok x86 filled" "state_ok x86 smashed"
    by (simp add: decls_ok_x86, code_simp, code_simp)
  have g: "ctx_gprs smashed ! unat (0 :: 32 word) = addr_gZero"
    "ctx_fprs smashed ! unat (3 :: 32 word) = nullptr"
    "ctx_gprs filled ! unat (5 :: 32 word) = Addr 0x1030"
    "IsAccessibleGPR x86 filled 5"
    by code_simp+
  have r: "\<not> (8 :: 32 word) < of_nat (kNumberOfCpuRegisters x86)"
    "(5 :: 32 word) < of_nat (kNumberOfCpuRegisters x86)"
    by (simp_all add: x86_fields)
  from SetGPR_SetFPR_contract[OF h(1,2), of 8 1] r have 1: "SetGPR x86 8 1 filled = Inl (CHECK_LT_failed, filled)"
    by blast
  from SetGPR_SetFPR_contract[OF h(1,3), of 0 1] g have 2: "isl (SetGPR x86 0 1 smashed)" by blast
  from SetGPR_SetFPR_contract[OF h(1,3), of 3 1] g have 3: "isl (SetFPR x86 3 1 smashed)" by blast
  from SetGPR_SetFPR_contract[OF h(1,2), of 5 "0xDEAD"] g r
  have "\<exists>s'. SetGPR x86 5 0xDEAD filled = Inr s' \<and> load s' (Addr 0x1030) = Inr 0xDEAD"
    by simp
  then have 4: "\<exists>s'. SetGPR x86 5 0xDEAD filled = Inr s' \<and> memory s' 0x1030 = 0xDEAD"
    by (simp add: load_def)
  from h g 1 2 3 4 show ?thesis by blast
qed

text \<open>
  C3. On an i386 build, let \<open>sp\<close> be the stack-pointer value the context gives: the word
  the ESP slot references, or the debug value when the slot is unbound. When the process
  has memory at \<open>sp - 4\<close>, \<open>DoLongJump\<close> reaches its assembly, whatever slots are bound
  or unbound. The buffer \<open>gprs\<close> has one word per general-purpose register and one more;
  entry \<open>kNumberOfCpuRegisters - 1 - i\<close> is \<open>kBadGprBase + i\<close> when slot \<open>i\<close> is null,
  0 when it is \<^verbatim>\<open>&gZero\<close>, \<open>esp_\<close> when it is \<^verbatim>\<open>&esp_\<close> and the word of memory at
  the slot's address otherwise; the last entry is \<open>sp - 4\<close>, one machine word below
  \<open>sp\<close>; and \<open>eip_\<close> is stored at that address. The buffer \<open>fprs\<close> is filled likewise,
  in ascending order, from \<open>kBadFprBase\<close>. When the process has no memory at \<open>sp - 4\<close>
  the store of \<open>eip_\<close> faults.
\<close>

theorem DoLongJump_scratch_buffers:
  assumes "decls_ok A" and "state_ok A s" and "i386 A"
    and "sp = (case ctx_gprs s ! ESP A of
                 nullptr \<Rightarrow> kBadGprBase A + of_nat (ESP A)
               | addr_gZero \<Rightarrow> 0
               | addr_esp \<Rightarrow> ctx_esp s
               | Addr a \<Rightarrow> memory s a)"
  shows "(mapped s (sp - 4) \<longrightarrow>
           (\<exists>gprs fprs s'. DoLongJump A s = Inr (gprs, fprs, s') \<and>
              length gprs = kNumberOfCpuRegisters A + 1 \<and>
              (\<forall>i < kNumberOfCpuRegisters A.
                 gprs ! (kNumberOfCpuRegisters A - 1 - i) =
                   (case ctx_gprs s ! i of
                      nullptr \<Rightarrow> kBadGprBase A + of_nat i
                    | addr_gZero \<Rightarrow> 0
                    | addr_esp \<Rightarrow> ctx_esp s
                    | Addr a \<Rightarrow> memory s a)) \<and>
              gprs ! kNumberOfCpuRegisters A = sp - 4 \<and>
              length fprs = kNumberOfFloatRegisters A \<and>
              (\<forall>i < kNumberOfFloatRegisters A.
                 fprs ! i =
                   (case ctx_fprs s ! i of
                      nullptr \<Rightarrow> kBadFprBase A + of_nat i
                    | addr_gZero \<Rightarrow> 0
                    | addr_esp \<Rightarrow> ctx_esp s
                    | Addr a \<Rightarrow> memory s a)) \<and>
              s' = s\<lparr>memory := (memory s)(sp - 4 := ctx_eip s)\<rparr> \<and>
              memory s' (sp - 4) = ctx_eip s)) \<and>
         (\<not> mapped s (sp - 4) \<longrightarrow> DoLongJump A s = Inl (SIGSEGV, s))"
proof -
  let ?N = "kNumberOfCpuRegisters A"
  have esp: "ESP A < ?N" using assms(1) by (simp add: decls_ok_def)
  obtain b where b: "gprs_loop A s [0..<?N] (replicate (?N + 1) 0) = Inr b"
    "length b = ?N + 1"
    "\<forall>m < ?N + 1. b ! m =
        (if m < ?N \<and> ?N - 1 - m \<in> set [0..<?N]
         then slot_value s (kBadGprBase A + of_nat (?N - 1 - m)) (ctx_gprs s ! (?N - 1 - m))
         else replicate (?N + 1) 0 ! m)"
    using gprs_loop_result[of "[0..<?N]" A s "replicate (?N + 1) 0"] by auto
  obtain f where f: "fprs_loop A s [0..<kNumberOfFloatRegisters A]
      (replicate (kNumberOfFloatRegisters A) 0) = Inr f"
    "length f = kNumberOfFloatRegisters A"
    "\<forall>i < kNumberOfFloatRegisters A.
       f ! i = slot_value s (kBadFprBase A + of_nat i) (ctx_fprs s ! i)"
    using fprs_loop_result[of "[0..<kNumberOfFloatRegisters A]" A s
        "replicate (kNumberOfFloatRegisters A) 0"] by auto
  have val: "\<forall>i < ?N. b ! (?N - 1 - i) = slot_value s (kBadGprBase A + of_nat i) (ctx_gprs s ! i)"
  proof (intro allI impI)
    fix i assume i: "i < ?N"
    then have "?N - 1 - i < ?N + 1" "?N - 1 - i < ?N" "?N - 1 - (?N - 1 - i) = i" by auto
    with b(3) i show "b ! (?N - 1 - i) = slot_value s (kBadGprBase A + of_nat i) (ctx_gprs s ! i)"
      by simp
  qed
  have sp: "sp = slot_value s (kBadGprBase A + of_nat (ESP A)) (ctx_gprs s ! ESP A)"
    by (simp add: assms(4) slot_value_def)
  have e: "b ! (?N - ESP A - 1) = sp"
    using val esp by (simp add: diff_right_commute sp)
  let ?g = "b[?N := sp - 4]"
  have stop: "DoLongJump A s = Inl (SIGSEGV, s)" if "\<not> mapped s (sp - 4)"
    using assms(3) b(1) f(1) e that by (simp add: DoLongJump_def Let_def)
  have run: "DoLongJump A s = Inr (?g, f, s\<lparr>memory := (memory s)(sp - 4 := ctx_eip s)\<rparr>)"
    if "mapped s (sp - 4)"
    using assms(3) b(1) f(1) e that by (simp add: DoLongJump_def Let_def store_def)
  have top: "?g ! ?N = sp - 4" using b(2) by simp
  have low: "\<forall>i < ?N. ?g ! (?N - 1 - i) =
                   (case ctx_gprs s ! i of
                      nullptr \<Rightarrow> kBadGprBase A + of_nat i
                    | addr_gZero \<Rightarrow> 0
                    | addr_esp \<Rightarrow> ctx_esp s
                    | Addr a \<Rightarrow> memory s a)"
    using val by (simp add: slot_value_def)
  have fl: "\<forall>i < kNumberOfFloatRegisters A. f ! i =
                   (case ctx_fprs s ! i of
                      nullptr \<Rightarrow> kBadFprBase A + of_nat i
                    | addr_gZero \<Rightarrow> 0
                    | addr_esp \<Rightarrow> ctx_esp s
                    | Addr a \<Rightarrow> memory s a)"
    using f(3) by (simp add: slot_value_def)
  have len: "length ?g = ?N + 1" using b(2) by simp
  show ?thesis
    using run stop top low len fl f(2) by simp
qed

text \<open>
  The state \<open>ready\<close>: EBP is bound to the frame's word at \<open>0x1030\<close>, which holds
  \<open>0xDEAD\<close>; \<open>esp_\<close> is \<open>0x2000\<close>; EAX is bound to the zero constant and ECX is
  unbound. The buffer gets \<open>0xDEAD\<close> for EBP (entry 2), \<open>0x2000\<close> for ESP (entry 3),
  \<open>kBadGprBase + 1\<close> for ECX (entry 6), 0 for EAX (entry 7) and \<open>0x1FFC\<close> last, where the
  return address is stored. In the state \<open>smashed\<close> the stack pointer is the debug value
  of \<open>Reset\<close>, the process has no memory below it, and the store faults.
\<close>

theorem DoLongJump_scratch_buffers_witness:
  "decls_ok x86 \<and> state_ok x86 ready \<and> state_ok x86 smashed \<and> i386 x86 \<and>
   ctx_gprs ready ! ESP x86 = addr_esp \<and> ctx_esp ready = 0x2000 \<and> mapped ready (0x2000 - 4) \<and>
   ctx_gprs ready ! 5 = Addr 0x1030 \<and> memory ready 0x1030 = 0xDEAD \<and>
   (\<exists>gprs fprs s'. DoLongJump x86 ready = Inr (gprs, fprs, s') \<and>
      gprs ! 2 = 0xDEAD \<and> gprs ! 3 = 0x2000 \<and> gprs ! 6 = 0xebad6071 \<and> gprs ! 7 = 0 \<and>
      gprs ! 8 = 0x1FFC \<and> memory s' 0x1FFC = 0xebad6078) \<and>
   ctx_gprs smashed ! ESP x86 = addr_esp \<and> ctx_esp smashed = 0xebad6074 \<and>
   \<not> mapped smashed (0xebad6074 - 4) \<and>
   DoLongJump x86 smashed = Inl (SIGSEGV, smashed)"
proof -
  have h: "decls_ok x86" "state_ok x86 ready" "i386 x86" "state_ok x86 smashed"
    by (simp add: decls_ok_x86, code_simp, simp add: x86_fields, code_simp)
  have v: "ctx_gprs ready ! ESP x86 = addr_esp" "ctx_esp ready = 0x2000"
    "mapped ready (0x2000 - 4)"
    "ctx_gprs ready ! 5 = Addr 0x1030" "memory ready 0x1030 = 0xDEAD"
    "ctx_gprs ready ! 1 = nullptr" "ctx_gprs ready ! 0 = addr_gZero"
    "ctx_gprs ready ! 4 = addr_esp" "ctx_eip ready = 0xebad6078"
    by code_simp+
  have w: "ctx_gprs smashed ! ESP x86 = addr_esp" "ctx_esp smashed = 0xebad6074"
    "\<not> mapped smashed (0xebad6074 - 4)"
    by code_simp+
  have sp: "0x2000 = (case ctx_gprs ready ! ESP x86 of
                 nullptr \<Rightarrow> kBadGprBase x86 + of_nat (ESP x86)
               | addr_gZero \<Rightarrow> 0
               | addr_esp \<Rightarrow> ctx_esp ready
               | Addr a \<Rightarrow> memory ready a)"
    by (simp add: v)
  have sp': "0xebad6074 = (case ctx_gprs smashed ! ESP x86 of
                 nullptr \<Rightarrow> kBadGprBase x86 + of_nat (ESP x86)
               | addr_gZero \<Rightarrow> 0
               | addr_esp \<Rightarrow> ctx_esp smashed
               | Addr a \<Rightarrow> memory smashed a)"
    by (simp add: w)
  from DoLongJump_scratch_buffers[OF h(1,2,3) sp] v(3) obtain gprs fprs s' where
    r: "DoLongJump x86 ready = Inr (gprs, fprs, s')"
    and g: "\<forall>i < kNumberOfCpuRegisters x86. gprs ! (kNumberOfCpuRegisters x86 - 1 - i) =
                   (case ctx_gprs ready ! i of
                      nullptr \<Rightarrow> kBadGprBase x86 + of_nat i
                    | addr_gZero \<Rightarrow> 0
                    | addr_esp \<Rightarrow> ctx_esp ready
                    | Addr a \<Rightarrow> memory ready a)"
    and e: "gprs ! kNumberOfCpuRegisters x86 = 0x2000 - 4"
    and m: "memory s' (0x2000 - 4) = ctx_eip ready"
    by blast
  from g[rule_format, of 5] v have g2: "gprs ! 2 = 0xDEAD" by (simp add: x86_fields)
  from g[rule_format, of 4] v have g3: "gprs ! 3 = 0x2000" by (simp add: x86_fields)
  from g[rule_format, of 1] v have g6: "gprs ! 6 = 0xebad6071" by (simp add: x86_fields)
  from g[rule_format, of 0] v have g7: "gprs ! 7 = 0" by (simp add: x86_fields)
  from e have g8: "gprs ! 8 = 0x1FFC" by (simp add: x86_fields)
  from m v have m8: "memory s' 0x1FFC = 0xebad6078" by simp
  from DoLongJump_scratch_buffers[OF h(1,4,3) sp'] w(3)
  have f: "DoLongJump x86 smashed = Inl (SIGSEGV, smashed)" by blast
  from r g2 g3 g6 g7 g8 m8 have
    "\<exists>gprs fprs s'. DoLongJump x86 ready = Inr (gprs, fprs, s') \<and>
      gprs ! 2 = 0xDEAD \<and> gprs ! 3 = 0x2000 \<and> gprs ! 6 = 0xebad6071 \<and> gprs ! 7 = 0 \<and>
      gprs ! 8 = 0x1FFC \<and> memory s' 0x1FFC = 0xebad6078" by blast
  with h v(1-5) w f show ?thesis by blast
qed

text \<open>
  C4. After \<open>Reset\<close> every general-purpose slot but ESP's is null and every
  floating-point slot is null; the ESP slot is \<^verbatim>\<open>&esp_\<close>, so that reading through it gives
  \<open>esp_\<close>; \<open>esp_\<close> is \<open>kBadGprBase + ESP\<close> and \<open>eip_\<close> is
  \<open>kBadGprBase + kNumberOfCpuRegisters\<close>, two different values; the memory outside the
  context is untouched. With \<open>kBadGprBase\<close> as the spec describes it, out of range, both
  values are distinct from any valid address: the process has no memory at \<open>esp_\<close> nor
  at \<open>eip_\<close>, and neither equals an address where it has.
\<close>

theorem Reset_clears:
  assumes "decls_ok A" and "state_ok A s"
  shows "(\<forall>i < kNumberOfCpuRegisters A. i \<noteq> ESP A \<longrightarrow> ctx_gprs (Reset A s) ! i = nullptr) \<and>
         (\<forall>i < kNumberOfFloatRegisters A. ctx_fprs (Reset A s) ! i = nullptr) \<and>
         ctx_gprs (Reset A s) ! ESP A = addr_esp \<and>
         ctx_esp (Reset A s) = kBadGprBase A + of_nat (ESP A) \<and>
         ctx_eip (Reset A s) = kBadGprBase A + of_nat (kNumberOfCpuRegisters A) \<and>
         ctx_esp (Reset A s) \<noteq> ctx_eip (Reset A s) \<and>
         load (Reset A s) (ctx_gprs (Reset A s) ! ESP A) = Inr (kBadGprBase A + of_nat (ESP A)) \<and>
         state_ok A (Reset A s) \<and> memory (Reset A s) = memory s \<and>
         mapped (Reset A s) = mapped s \<and>
         (kBadGprBase_out_of_range A s \<longrightarrow>
            \<not> mapped (Reset A s) (ctx_esp (Reset A s)) \<and>
            \<not> mapped (Reset A s) (ctx_eip (Reset A s)) \<and>
            (\<forall>a. mapped (Reset A s) a \<longrightarrow>
               a \<noteq> ctx_esp (Reset A s) \<and> a \<noteq> ctx_eip (Reset A s)))"
proof -
  have esp: "ESP A < kNumberOfCpuRegisters A" using assms(1) by (rule decls_ok_ESP)
  have n: "kNumberOfCpuRegisters A \<le> 32" using assms(1) by (simp add: decls_ok_def)
  have g: "\<forall>i < kNumberOfCpuRegisters A. i \<noteq> ESP A \<longrightarrow> ctx_gprs (Reset A s) ! i = nullptr"
    using assms(2) by (simp add: Reset_gprs_nth)
  have f: "\<forall>i < kNumberOfFloatRegisters A. ctx_fprs (Reset A s) ! i = nullptr"
    using assms(2) by (simp add: Reset_fprs_nth)
  have b: "ctx_gprs (Reset A s) ! ESP A = addr_esp"
    using assms(2) esp by (simp add: Reset_gprs_nth)
  have v: "ctx_esp (Reset A s) = kBadGprBase A + of_nat (ESP A)"
    "ctx_eip (Reset A s) = kBadGprBase A + of_nat (kNumberOfCpuRegisters A)"
    "memory (Reset A s) = memory s" "mapped (Reset A s) = mapped s"
    by (simp_all add: Reset_def Let_def)
  have d: "ctx_esp (Reset A s) \<noteq> ctx_eip (Reset A s)"
    using of_nat_neq_32[OF esp n] by (simp add: v)
  have l: "load (Reset A s) (ctx_gprs (Reset A s) ! ESP A) = Inr (kBadGprBase A + of_nat (ESP A))"
    by (simp add: b load_def v)
  have o: "\<not> mapped (Reset A s) (ctx_esp (Reset A s)) \<and>
            \<not> mapped (Reset A s) (ctx_eip (Reset A s)) \<and>
            (\<forall>a. mapped (Reset A s) a \<longrightarrow>
               a \<noteq> ctx_esp (Reset A s) \<and> a \<noteq> ctx_eip (Reset A s))"
    if r: "kBadGprBase_out_of_range A s"
  proof -
    have out: "\<forall>i \<le> kNumberOfCpuRegisters A. \<not> mapped s (kBadGprBase A + of_nat i)"
      using r by (fastforce simp: kBadGprBase_out_of_range_def list_all_iff le_eq_less_or_eq)
    have o1: "\<not> mapped (Reset A s) (ctx_esp (Reset A s))"
      using out esp by (simp add: v)
    have o2: "\<not> mapped (Reset A s) (ctx_eip (Reset A s))"
      using out by (simp add: v)
    from o1 o2 show ?thesis by blast
  qed
  from g f b v(1,2) d l state_ok_Reset[OF assms(2)] have
    "(\<forall>i < kNumberOfCpuRegisters A. i \<noteq> ESP A \<longrightarrow> ctx_gprs (Reset A s) ! i = nullptr) \<and>
         (\<forall>i < kNumberOfFloatRegisters A. ctx_fprs (Reset A s) ! i = nullptr) \<and>
         ctx_gprs (Reset A s) ! ESP A = addr_esp \<and>
         ctx_esp (Reset A s) = kBadGprBase A + of_nat (ESP A) \<and>
         ctx_eip (Reset A s) = kBadGprBase A + of_nat (kNumberOfCpuRegisters A) \<and>
         ctx_esp (Reset A s) \<noteq> ctx_eip (Reset A s) \<and>
         load (Reset A s) (ctx_gprs (Reset A s) ! ESP A) = Inr (kBadGprBase A + of_nat (ESP A)) \<and>
         state_ok A (Reset A s)"
    by blast
  with v(3,4) o show ?thesis by blast
qed

text \<open>
  The context \<open>fresh\<close> has every slot bound; \<open>Reset\<close> clears them. Its process has
  memory from \<open>0x1000\<close> up to \<open>0x4000\<close>, far from the debug values.
\<close>

theorem Reset_clears_witness:
  "decls_ok x86 \<and> state_ok x86 fresh \<and> kBadGprBase_out_of_range x86 fresh \<and>
   ctx_gprs (Reset x86 fresh) ! 0 = nullptr \<and> ctx_gprs (Reset x86 fresh) ! 7 = nullptr \<and>
   ctx_fprs (Reset x86 fresh) ! 15 = nullptr \<and>
   ctx_gprs (Reset x86 fresh) ! 4 = addr_esp \<and>
   ctx_esp (Reset x86 fresh) = 0xebad6074 \<and> ctx_eip (Reset x86 fresh) = 0xebad6078 \<and>
   \<not> mapped (Reset x86 fresh) 0xebad6074 \<and> \<not> mapped (Reset x86 fresh) 0xebad6078"
proof -
  have h3: "kBadGprBase_out_of_range x86 fresh" by code_simp
  note t = Reset_clears[OF decls_ok_x86 state_ok_fresh]
  from t have s: "ctx_gprs (Reset x86 fresh) ! 0 = nullptr" "ctx_gprs (Reset x86 fresh) ! 7 = nullptr"
    "ctx_fprs (Reset x86 fresh) ! 15 = nullptr" "ctx_gprs (Reset x86 fresh) ! 4 = addr_esp"
    by (simp_all add: x86_fields)
  from t have v: "ctx_esp (Reset x86 fresh) = 0xebad6074" "ctx_eip (Reset x86 fresh) = 0xebad6078"
    by (simp_all add: x86_fields)
  from t h3 have o': "\<not> mapped (Reset x86 fresh) (ctx_esp (Reset x86 fresh))"
    "\<not> mapped (Reset x86 fresh) (ctx_eip (Reset x86 fresh))"
    by blast+
  have o: "\<not> mapped (Reset x86 fresh) 0xebad6074" "\<not> mapped (Reset x86 fresh) 0xebad6078"
    using o' unfolding v by blast+
  from decls_ok_x86 state_ok_fresh h3 s v o show ?thesis by blast
qed

text \<open>
  C5. After \<open>SmashCallerSaves\<close> the slots of EAX and EDX are \<^verbatim>\<open>&gZero\<close>, and reading
  through them gives 0; the slots of ECX and EBX are null; every floating-point slot is
  null.
\<close>

theorem SmashCallerSaves_result:
  assumes "decls_ok A" and "state_ok A s" and "s' = SmashCallerSaves A s"
  shows "ctx_gprs s' ! EAX A = addr_gZero \<and> ctx_gprs s' ! EDX A = addr_gZero \<and>
         load s' (ctx_gprs s' ! EAX A) = Inr 0 \<and> load s' (ctx_gprs s' ! EDX A) = Inr 0 \<and>
         ctx_gprs s' ! ECX A = nullptr \<and> ctx_gprs s' ! EBX A = nullptr \<and>
         (\<forall>i < kNumberOfFloatRegisters A. ctx_fprs s' ! i = nullptr)"
proof -
  have l: "length (ctx_gprs s) = kNumberOfCpuRegisters A" "length (ctx_fprs s) = kNumberOfFloatRegisters A"
    using assms(2) by (simp_all add: state_ok_def)
  have a: "ctx_gprs s' ! EAX A = addr_gZero" "ctx_gprs s' ! EDX A = addr_gZero"
    "ctx_gprs s' ! ECX A = nullptr" "ctx_gprs s' ! EBX A = nullptr"
    using decls_ok_distinct[OF assms(1)] decls_ok_less[OF assms(1)] l
    by (auto simp: assms(3) SmashCallerSaves_def nth_list_update)
  have f: "\<forall>i < kNumberOfFloatRegisters A. ctx_fprs s' ! i = nullptr"
    using l by (simp add: assms(3) SmashCallerSaves_def)
  from a f show ?thesis by (simp add: load_def)
qed

text \<open>
  On the x86 values, after \<open>Reset\<close>.
\<close>

theorem SmashCallerSaves_result_witness:
  "decls_ok x86 \<and> state_ok x86 (Reset x86 fresh) \<and>
   ctx_gprs (SmashCallerSaves x86 (Reset x86 fresh)) ! 0 = addr_gZero \<and>
   ctx_gprs (SmashCallerSaves x86 (Reset x86 fresh)) ! 2 = addr_gZero \<and>
   load (SmashCallerSaves x86 (Reset x86 fresh))
     (ctx_gprs (SmashCallerSaves x86 (Reset x86 fresh)) ! 0) = Inr 0 \<and>
   ctx_gprs (SmashCallerSaves x86 (Reset x86 fresh)) ! 1 = nullptr \<and>
   ctx_gprs (SmashCallerSaves x86 (Reset x86 fresh)) ! 3 = nullptr \<and>
   ctx_fprs (SmashCallerSaves x86 (Reset x86 fresh)) ! 15 = nullptr"
  using SmashCallerSaves_result[OF decls_ok_x86 state_ok_Reset[OF state_ok_fresh] refl]
    decls_ok_x86 state_ok_Reset[OF state_ok_fresh]
  by (simp add: x86_fields load_def)

text \<open>
  C6. Let the floating-point spill mask name only registers whose two slots exist. Then
  \<open>FillCalleeSaves\<close> returns, and for the register \<open>i\<close> carrying set bit number \<open>k\<close> of
  the mask it binds slot \<open>2 * i\<close> to position \<open>spill_count + 2 * fp_spill_count - 2 * k - 2\<close>
  and slot \<open>2 * i + 1\<close> to the position one below: two consecutive positions for each
  register, the lowest register highest, all above the \<open>spill_count\<close> positions of the
  general-purpose spills.
\<close>

theorem FillCalleeSaves_binds_fpr:
  assumes "decls_ok A" and "state_ok A s"
    and "\<forall>i < kNumberOfFloatRegisters A.
           bit (FpSpillMask fr) i \<longrightarrow> 2 * i + 1 < kNumberOfFloatRegisters A"
    and "POPCOUNT (CoreSpillMask fr) = spill_count"
    and "POPCOUNT (FpSpillMask fr) = fp_spill_count"
  shows "\<exists>s'. FillCalleeSaves A fr s = Inr s' \<and>
           (\<forall>i k. i < kNumberOfFloatRegisters A \<and> bit (FpSpillMask fr) i \<and>
                  bits_below (FpSpillMask fr) i = k \<longrightarrow>
              ctx_fprs s' ! (2 * i) =
                CalleeSaveAddress fr (int spill_count + 2 * int fp_spill_count - 2 * int k - 2)
                  (FrameSizeInBytes fr) \<and>
              ctx_fprs s' ! (2 * i + 1) =
                CalleeSaveAddress fr (int spill_count + 2 * int fp_spill_count - 2 * int k - 3)
                  (FrameSizeInBytes fr))"
proof -
  let ?NF = "kNumberOfFloatRegisters A"
  let ?m = "FpSpillMask fr"
  let ?sc = "of_nat (POPCOUNT (CoreSpillMask fr)) :: 32 word"
  let ?w = "of_nat (POPCOUNT ?m) * 2 :: 32 word"
  have len: "length (ctx_fprs s) = ?NF" using assms(2) by (simp add: state_ok_def)
  have ok: "\<forall>x\<in>set [0..<?NF]. bit ?m x \<longrightarrow> 2 * x + 1 < ?NF" using assms(3) by simp
  let ?f' = "ctx_fprs (fpr_loop A fr ?sc ?w [0..<?NF] 2 s)"
  note f' = fpr_loop_result[OF distinct_upt ok len, of _ ?sc ?w 2]
  let ?s' = "state_of (FillCalleeSaves A fr s)"
  have r: "FillCalleeSaves A fr s = Inr ?s'" by (rule FillCalleeSaves_returns)
  have "ctx_fprs ?s' ! (2 * i) =
                CalleeSaveAddress fr (int spill_count + 2 * int fp_spill_count - 2 * int k - 2)
                  (FrameSizeInBytes fr) \<and>
        ctx_fprs ?s' ! (2 * i + 1) =
                CalleeSaveAddress fr (int spill_count + 2 * int fp_spill_count - 2 * int k - 3)
                  (FrameSizeInBytes fr)"
    if i: "i < ?NF" and b: "bit ?m i" and k: "bits_below ?m i = k" for i k
  proof -
    from assms(3) i b have in2: "2 * i + 1 < ?NF" by simp
    have "i < 32" using b bit_imp_le_length[of ?m i] by simp
    then have k32: "k \<le> 32" using bits_below_le[of ?m i] k by simp
    have pos: "(0 :: 32 word) < of_nat (POPCOUNT ?m)" using b by (rule POPCOUNT_pos)
    have fp: "ctx_fprs ?s' = ?f'" using pos by (simp add: ctx_fprs_FillCalleeSaves)
    have tw: "length (filter (bit ?m) (takeWhile (\<lambda>x. x \<noteq> i) [0..<?NF])) = k"
      using i k by (simp add: takeWhile_upt bits_below_def)
    have e: "?f' ! (2 * i) = CalleeSaveAddress fr
                (sint (?sc + ?w - (2 + 2 * of_nat k) - of_nat 0)) (FrameSizeInBytes fr)"
      using f'[of "2 * i"] in2 i b tw by simp
    have "(2 * i + 1) div 2 = i" "(2 * i + 1) mod 2 = 1" by simp_all
    then have o: "?f' ! (2 * i + 1) = CalleeSaveAddress fr
                (sint (?sc + ?w - (2 + 2 * of_nat k) - of_nat 1)) (FrameSizeInBytes fr)"
      using f'[of "2 * i + 1"] in2 i b tw by simp
    have n0: "sint (?sc + ?w - (2 + 2 * of_nat k) - of_nat 0) =
                int spill_count + 2 * int fp_spill_count - 2 * int k - 2"
      using fp_num[OF k32, of 0 "CoreSpillMask fr" ?m] by (simp add: assms(4) assms(5))
    have n1: "sint (?sc + ?w - (2 + 2 * of_nat k) - of_nat 1) =
                int spill_count + 2 * int fp_spill_count - 2 * int k - 3"
      using fp_num[OF k32, of 1 "CoreSpillMask fr" ?m] by (simp add: assms(4) assms(5))
    from e o show ?thesis by (simp only: fp n0 n1)
  qed
  with r show ?thesis by blast
qed

text \<open>
  A frame that spilled EBP, ESI, EDI, the return address and XMM0 and XMM2: XMM2 carries
  set bit 1 of 2 and its halves get positions 4 and 3, the words at \<open>0x1028\<close> and
  \<open>0x102C\<close>, just below EBP's at \<open>0x1030\<close>.
\<close>

theorem FillCalleeSaves_binds_fpr_witness:
  "decls_ok x86 \<and> state_ok x86 fresh \<and>
   POPCOUNT (CoreSpillMask (frame 0x1000 0x1E0 0x5 64)) = 4 \<and>
   POPCOUNT (FpSpillMask (frame 0x1000 0x1E0 0x5 64)) = 2 \<and>
   2 < kNumberOfFloatRegisters x86 \<and> bit (FpSpillMask (frame 0x1000 0x1E0 0x5 64)) 2 \<and>
   bits_below (FpSpillMask (frame 0x1000 0x1E0 0x5 64)) 2 = 1 \<and>
   (\<exists>s'. FillCalleeSaves x86 (frame 0x1000 0x1E0 0x5 64) fresh = Inr s' \<and>
         ctx_fprs s' ! 4 = Addr 0x1028 \<and> ctx_fprs s' ! 5 = Addr 0x102C)"
proof -
  let ?fr = "frame 0x1000 0x1E0 0x5 64"
  have h1: "decls_ok x86" by (rule decls_ok_x86)
  have h2: "state_ok x86 fresh" by (rule state_ok_fresh)
  have "list_all (\<lambda>i. bit (FpSpillMask ?fr) i \<longrightarrow> 2 * i + 1 < kNumberOfFloatRegisters x86)
          [0..<kNumberOfFloatRegisters x86]"
    by code_simp
  then have h3: "\<forall>i < kNumberOfFloatRegisters x86.
      bit (FpSpillMask ?fr) i \<longrightarrow> 2 * i + 1 < kNumberOfFloatRegisters x86"
    by (simp add: list_all_iff)
  have h4: "POPCOUNT (CoreSpillMask ?fr) = 4" by code_simp
  have h5: "POPCOUNT (FpSpillMask ?fr) = 2" by code_simp
  have b: "2 < kNumberOfFloatRegisters x86" "bit (FpSpillMask ?fr) 2"
    "bits_below (FpSpillMask ?fr) 2 = 1"
    by code_simp+
  have a: "CalleeSaveAddress ?fr (int 4 + 2 * int 2 - 2 * int 1 - 2) (FrameSizeInBytes ?fr) = Addr 0x1028"
    "CalleeSaveAddress ?fr (int 4 + 2 * int 2 - 2 * int 1 - 3) (FrameSizeInBytes ?fr) = Addr 0x102C"
    by (simp_all add: frame_def)
  from FillCalleeSaves_binds_fpr[OF h1 h2 h3 h4 h5] obtain s' where
    s': "FillCalleeSaves x86 ?fr fresh = Inr s'"
    "\<forall>i k. i < kNumberOfFloatRegisters x86 \<and> bit (FpSpillMask ?fr) i \<and>
                  bits_below (FpSpillMask ?fr) i = k \<longrightarrow>
              ctx_fprs s' ! (2 * i) =
                CalleeSaveAddress ?fr (int 4 + 2 * int 2 - 2 * int k - 2) (FrameSizeInBytes ?fr) \<and>
              ctx_fprs s' ! (2 * i + 1) =
                CalleeSaveAddress ?fr (int 4 + 2 * int 2 - 2 * int k - 3) (FrameSizeInBytes ?fr)"
    by blast
  from s'(2)[rule_format, of 2 1] b a
  have "ctx_fprs s' ! 4 = Addr 0x1028 \<and> ctx_fprs s' ! 5 = Addr 0x102C" by simp
  with s'(1) h1 h2 h4 h5 b show ?thesis by blast
qed



text \<open>
  C8. Start from \<open>Reset\<close> and make any sequence of calls of \<open>Reset\<close>,
  \<open>FillCalleeSaves\<close> (on frames whose spill addresses are not null),
  \<open>SmashCallerSaves\<close>, \<open>SetGPR\<close> and \<open>SetFPR\<close>. In the state the sequence ends in,
  whether it ran through or a call stopped it, the ESP slot is not null. After \<open>Reset\<close>
  every other slot is null, and the two setters never change a binding: slots become
  bound in \<open>FillCalleeSaves\<close> and \<open>SmashCallerSaves\<close> only.
\<close>

theorem ESP_slot_always_bound:
  assumes "decls_ok A" and "state_ok A s0" and "list_all call_ok cs"
  shows "ctx_gprs (state_of (run A cs (Reset A s0))) ! ESP A \<noteq> nullptr \<and>
         (\<forall>i < kNumberOfCpuRegisters A. i \<noteq> ESP A \<longrightarrow> ctx_gprs (Reset A s0) ! i = nullptr) \<and>
         (\<forall>i < kNumberOfFloatRegisters A. ctx_fprs (Reset A s0) ! i = nullptr) \<and>
         (\<forall>reg v s. ctx_gprs (state_of (SetGPR A reg v s)) = ctx_gprs s \<and>
                    ctx_fprs (state_of (SetGPR A reg v s)) = ctx_fprs s \<and>
                    ctx_gprs (state_of (SetFPR A reg v s)) = ctx_gprs s \<and>
                    ctx_fprs (state_of (SetFPR A reg v s)) = ctx_fprs s)"
proof -
  have "ESP_bound A (state_of (run A cs (Reset A s0)))"
    using assms(1) ESP_bound_Reset[OF assms(1,2)] assms(3) by (rule ESP_bound_run)
  then have 1: "ctx_gprs (state_of (run A cs (Reset A s0))) ! ESP A \<noteq> nullptr"
    by (simp add: ESP_bound_def)
  have 2: "\<forall>i < kNumberOfCpuRegisters A. i \<noteq> ESP A \<longrightarrow> ctx_gprs (Reset A s0) ! i = nullptr"
    using assms(2) by (simp add: Reset_gprs_nth)
  have 3: "\<forall>i < kNumberOfFloatRegisters A. ctx_fprs (Reset A s0) ! i = nullptr"
    using assms(2) by (simp add: Reset_fprs_nth)
  from 1 2 3 SetGPR_bindings SetFPR_bindings show ?thesis by blast
qed

text \<open>
  A sequence that runs through: a frame that spilled ESP too, a write to ESP, a write to
  a floating-point slot, and \<open>SmashCallerSaves\<close>.
\<close>

theorem ESP_slot_always_bound_witness:
  "decls_ok x86 \<and> state_ok x86 fresh \<and> list_all call_ok calls \<and>
   \<not> isl (run x86 calls (Reset x86 fresh)) \<and>
   ctx_gprs (state_of (run x86 calls (Reset x86 fresh))) ! ESP x86 \<noteq> nullptr"
proof -
  have h3: "list_all call_ok calls" by (simp add: calls_def frame_def)
  have r: "\<not> isl (run x86 calls (Reset x86 fresh))" by code_simp
  from ESP_slot_always_bound[OF decls_ok_x86 state_ok_fresh h3] decls_ok_x86 state_ok_fresh h3 r
  show ?thesis by blast
qed

text \<open>
  C9. \<open>SmashCallerSaves\<close> leaves the slots of ESP, EBP, ESI and EDI, indeed every
  general-purpose slot other than those of EAX, EDX, ECX and EBX, as they were, and
  likewise \<open>esp_\<close>, \<open>eip_\<close> and the memory.
\<close>

theorem SmashCallerSaves_frame:
  assumes "decls_ok A" and "state_ok A s" and "s' = SmashCallerSaves A s"
  shows "ctx_gprs s' ! ESP A = ctx_gprs s ! ESP A \<and> ctx_gprs s' ! EBP A = ctx_gprs s ! EBP A \<and>
         ctx_gprs s' ! ESI A = ctx_gprs s ! ESI A \<and> ctx_gprs s' ! EDI A = ctx_gprs s ! EDI A \<and>
         (\<forall>i. i \<notin> {EAX A, EDX A, ECX A, EBX A} \<longrightarrow> ctx_gprs s' ! i = ctx_gprs s ! i) \<and>
         ctx_esp s' = ctx_esp s \<and> ctx_eip s' = ctx_eip s \<and> memory s' = memory s \<and>
         state_ok A s'"
  using decls_ok_distinct[OF assms(1)] assms(2)
  by (auto simp: assms(3) SmashCallerSaves_def state_ok_def)

text \<open>
  On the x86 values, after \<open>Reset\<close>: ESP stays bound to \<^verbatim>\<open>&esp_\<close>, EBP stays null.
\<close>

theorem SmashCallerSaves_frame_witness:
  "decls_ok x86 \<and> state_ok x86 (Reset x86 fresh) \<and>
   ctx_gprs (SmashCallerSaves x86 (Reset x86 fresh)) ! 4 = addr_esp \<and>
   ctx_gprs (SmashCallerSaves x86 (Reset x86 fresh)) ! 5 = nullptr \<and>
   ctx_esp (SmashCallerSaves x86 (Reset x86 fresh)) = 0xebad6074 \<and>
   ctx_eip (SmashCallerSaves x86 (Reset x86 fresh)) = 0xebad6078"
proof -
  have r: "ctx_gprs (Reset x86 fresh) ! 4 = addr_esp" "ctx_gprs (Reset x86 fresh) ! 5 = nullptr"
    "ctx_esp (Reset x86 fresh) = 0xebad6074" "ctx_eip (Reset x86 fresh) = 0xebad6078"
    by code_simp+
  show ?thesis
    using SmashCallerSaves_frame[OF decls_ok_x86 state_ok_Reset[OF state_ok_fresh] refl]
      decls_ok_x86 state_ok_Reset[OF state_ok_fresh] r
    by (simp add: x86_fields load_def)
qed

text \<open>
  C10. When \<open>SetGPR\<close> or \<open>SetFPR\<close> stops, for whichever reason, the state it stops in
  is the state it was called in: slots, \<open>esp_\<close>, \<open>eip_\<close> and every word of memory. Every
  check comes before the store, and a store that faults writes nothing.
\<close>

theorem setter_failure_changes_nothing:
  "(isl (SetGPR A reg v s) \<longrightarrow> state_of (SetGPR A reg v s) = s) \<and>
   (isl (SetFPR A reg v s) \<longrightarrow> state_of (SetFPR A reg v s) = s)"
proof -
  have "state_of (SetGPR A reg v s) = s" if "isl (SetGPR A reg v s)"
  proof -
    from that obtain a s' where r: "SetGPR A reg v s = Inl (a, s')"
      by (cases "SetGPR A reg v s") auto
    then have "s' = s" by (rule SetGPR_stops_unchanged)
    with r show ?thesis by simp
  qed
  moreover have "state_of (SetFPR A reg v s) = s" if "isl (SetFPR A reg v s)"
  proof -
    from that obtain a s' where r: "SetFPR A reg v s = Inl (a, s')"
      by (cases "SetFPR A reg v s") auto
    then have "s' = s" by (rule SetFPR_stops_unchanged)
    with r show ?thesis by simp
  qed
  ultimately show ?thesis by blast
qed

text \<open>
  After \<open>SmashCallerSaves\<close>: \<open>SetGPR\<close> on EAX, bound to \<open>gZero\<close>, and \<open>SetFPR\<close> with
  index 16, out of range.
\<close>

theorem setter_failure_changes_nothing_witness:
  "isl (SetGPR x86 0 1 smashed) \<and> state_of (SetGPR x86 0 1 smashed) = smashed \<and>
   isl (SetFPR x86 16 1 smashed) \<and> state_of (SetFPR x86 16 1 smashed) = smashed"
proof -
  have a: "isl (SetGPR x86 0 1 smashed)" by code_simp
  have b: "isl (SetFPR x86 16 1 smashed)" by code_simp
  from a b setter_failure_changes_nothing[of x86 0 1 smashed] setter_failure_changes_nothing[of x86 16 1 smashed] show ?thesis by blast
qed

end
